theory Spec2Isabelle
  imports Complex_Main
begin

section \<open>Data model\<close>

text \<open>
  The threading engine of \<^verbatim>\<open>src/threading.ts\<close> over the schema of
  \<^verbatim>\<open>db/schema.sql\<close>. Identifiers are the strings the driver hands to the code
  (UUID text), timestamps are the values of the \<^verbatim>\<open>TIMESTAMPTZ\<close> columns
  (microseconds since the Unix epoch, as integers), and JavaScript numbers are
  real numbers: the scores compared here
  are quotients of small token counts, on which exact and IEEE comparison with
  the thresholds agree. Strings are lists of 8-bit code units.
\<close>

datatype ThreadState = Active | Cooling | Archived | Superseded

datatype AssignmentStatus = Pending | In_progress | Assigned | Failed

type_synonym timestamptz = int

record MessageRecord =
  id_m :: string
  created_at_m :: timestamptz
  author_m :: string
  content_m :: string
  thread_id :: "string option"
  assignment_status :: AssignmentStatus
  assignment_note :: "string option"

record ThreadRecord =
  id_t :: string
  title_t :: string
  state :: ThreadState
  created_at_t :: timestamptz
  updated_at :: timestamptz
  last_message_at :: "timestamptz option"
  archived_at :: "timestamptz option"
  superseded_at :: "timestamptz option"
  revives_thread_id :: "string option"
  continued_in_thread_id :: "string option"
  merged_into_thread_id :: "string option"

record ThreadCandidate =
  id_c :: string
  title_c :: string
  state_c :: ThreadState
  last_message_at_c :: "timestamptz option"
  recent_excerpt :: string

text \<open>\<^verbatim>\<open>MergeCandidate\<close> has the fields of \<^verbatim>\<open>ThreadCandidate\<close>.\<close>

type_synonym MergeCandidate = ThreadCandidate

record ArchivedCandidate =
  id_a :: string
  title_a :: string
  recent_excerpt_a :: string

record PendingMessage =
  id_p :: string
  created_at_p :: timestamptz
  author_p :: string
  content_p :: string

datatype Action = Assign | Create

text \<open>
  \<^verbatim>\<open>confidence\<close> is declared a number, but the value comes out of
  \<^verbatim>\<open>JSON.parse\<close> and the code defaults it with \<^verbatim>\<open>??\<close>; \<open>None\<close> is the
  missing number.
\<close>

record AssignmentDecision =
  action :: Action
  threadId :: "string option"
  title :: "string option"
  confidence :: "real option"
  reason :: string

record MergeDecision =
  shouldMerge_m :: bool
  sourceThreadId_m :: string
  targetThreadId_m :: string
  confidence_m :: real
  reason_m :: string

record RevivalDecision =
  archivedThreadId :: "string option"
  confidence_r :: real

text \<open>
  The decision provider \<^verbatim>\<open>AIDecider\<close>: its three calls are network calls, so
  they are functions given from outside; \<open>None\<close> is a call that throws.
\<close>

record MessageForAI =
  author_ai :: string
  content_ai :: string
  created_at_ai :: timestamptz

record AIDecider =
  enabled :: bool
  decideAssignment :: "MessageForAI \<Rightarrow> ThreadCandidate list \<Rightarrow> AssignmentDecision option"
  decideRevivalLink :: "MessageForAI \<Rightarrow> ArchivedCandidate list \<Rightarrow> RevivalDecision option"
  decideMerge :: "MergeCandidate \<Rightarrow> MergeCandidate \<Rightarrow> MergeDecision option"

text \<open>A string in a boolean position: \<^verbatim>\<open>null\<close> and \<^verbatim>\<open>""\<close> are falsy.\<close>

definition truthy :: "string option \<Rightarrow> bool" where
  "truthy v = (case v of None \<Rightarrow> False | Some x \<Rightarrow> x \<noteq> [])"

section \<open>Similarity scorer\<close>

definition STOP_WORDS :: "string set" where
  "STOP_WORDS = {''a'', ''an'', ''and'', ''are'', ''as'', ''at'', ''be'', ''by'', ''for'',
     ''from'', ''in'', ''into'', ''is'', ''it'', ''of'', ''on'', ''or'', ''that'', ''the'',
     ''this'', ''to'', ''we'', ''with'', ''you''}"

definition code_unit :: "char \<Rightarrow> nat" where
  "code_unit c = of_char c"

text \<open>The class \<^verbatim>\<open>\s\<close> on 8-bit code units: TAB, LF, VT, FF, CR, SP and NBSP.\<close>

definition is_space :: "char \<Rightarrow> bool" where
  "is_space c = (let n = code_unit c in (9 \<le> n \<and> n \<le> 13) \<or> n = 32 \<or> n = 160)"

definition is_upper :: "char \<Rightarrow> bool" where
  "is_upper c = (let n = code_unit c in 65 \<le> n \<and> n \<le> 90)"

definition is_lower :: "char \<Rightarrow> bool" where
  "is_lower c = (let n = code_unit c in 97 \<le> n \<and> n \<le> 122)"

definition is_digit :: "char \<Rightarrow> bool" where
  "is_digit c = (let n = code_unit c in 48 \<le> n \<and> n \<le> 57)"

text \<open>
  \<^verbatim>\<open>toLowerCase\<close> and \<^verbatim>\<open>toUpperCase\<close> on the letters that the later filters
  keep; every other code unit is mapped to itself (its image is not in
  \<^verbatim>\<open>[a-z0-9\s]\<close> either way).
\<close>

definition toLowerCase :: "string \<Rightarrow> string" where
  "toLowerCase s = map (\<lambda>c. if is_upper c then char_of (code_unit c + 32) else c) s"

definition toUpperCase :: "string \<Rightarrow> string" where
  "toUpperCase s = map (\<lambda>c. if is_lower c then char_of (code_unit c - 32) else c) s"

text \<open>\<^verbatim>\<open>.replace(/[^a-z0-9\s]/g, " ")\<close>\<close>

definition replace_non_alnum :: "string \<Rightarrow> string" where
  "replace_non_alnum s =
     map (\<lambda>c. if is_lower c \<or> is_digit c \<or> is_space c then c else CHR '' '') s"

text \<open>
  \<^verbatim>\<open>.split(/\s+/)\<close>: the pieces between maximal runs of white space; a
  string that starts or ends with white space gives an empty first or last
  piece, and the empty string gives one empty piece.
\<close>

function split_ws_from :: "string \<Rightarrow> string \<Rightarrow> string list" where
  "split_ws_from cur [] = [rev cur]"
| "split_ws_from cur (c # cs) =
     (if is_space c then rev cur # split_ws_from [] (dropWhile is_space cs)
      else split_ws_from (c # cur) cs)"
  by pat_completeness auto
termination
  by (relation "measure (\<lambda>(cur, s). length s)")
     (auto simp: length_dropWhile_le less_Suc_eq_le)

definition split_ws :: "string \<Rightarrow> string list" where
  "split_ws s = split_ws_from [] s"

definition tokenize :: "string \<Rightarrow> string set" where
  "tokenize input =
     set (filter (\<lambda>word. length word \<ge> 3 \<and> word \<notin> STOP_WORDS)
            (split_ws (replace_non_alnum (toLowerCase input))))"

definition jaccard :: "string set \<Rightarrow> string set \<Rightarrow> real" where
  "jaccard a b =
     (if card a = 0 \<or> card b = 0 then 0
      else (let intersection = card (a \<inter> b)
            in real intersection / real (card a + card b - intersection)))"

definition scoreSimilarity :: "string \<Rightarrow> string \<Rightarrow> real" where
  "scoreSimilarity textA textB = jaccard (tokenize textA) (tokenize textB)"

section \<open>Titles\<close>

definition trim :: "string \<Rightarrow> string" where
  "trim s = rev (dropWhile is_space (rev (dropWhile is_space s)))"

fun join_sp :: "string list \<Rightarrow> string" where
  "join_sp [] = []"
| "join_sp [w] = w"
| "join_sp (w # v # ws) = w @ '' '' @ join_sp (v # ws)"

text \<open>The class \<^verbatim>\<open>[\w\s-]\<close>: letters, digits, underscore, white space, hyphen.\<close>

definition is_title_char :: "char \<Rightarrow> bool" where
  "is_title_char c =
     (is_lower c \<or> is_upper c \<or> is_digit c \<or> c = CHR ''_'' \<or> is_space c \<or> c = CHR ''-'')"

definition buildTitle :: "string \<Rightarrow> string" where
  "buildTitle message =
     (let words = take 8 (split_ws (trim message));
          joined = trim (filter is_title_char (join_sp words))
      in if joined = [] then ''Untitled discussion''
         else (let withFirstUpper = toUpperCase (take 1 joined) @ drop 1 joined
               in if length withFirstUpper > 96
                  then trim (take 93 withFirstUpper) @ ''...''
                  else withFirstUpper))"

section \<open>Assignment decisions\<close>

definition normalizeAssignmentDecision ::
  "AssignmentDecision \<Rightarrow> ThreadCandidate list \<Rightarrow> string \<Rightarrow> AssignmentDecision" where
  "normalizeAssignmentDecision decision candidates fallbackTitle =
     (let candidateIds = set (map id_c candidates)
      in if action decision = Assign \<and>
            truthy (threadId decision) \<and>
            (case threadId decision of None \<Rightarrow> False | Some i \<Rightarrow> i \<in> candidateIds) \<and>
            (case confidence decision of None \<Rightarrow> False | Some c \<Rightarrow> c \<ge> 0.45)
         then decision
         else \<lparr> action = Create,
                threadId = None,
                title = Some (case title decision of None \<Rightarrow> fallbackTitle | Some x \<Rightarrow> x),
                confidence = Some (case confidence decision of None \<Rightarrow> 0.5 | Some c \<Rightarrow> c),
                reason = (if reason decision = [] then ''No clear active thread match.''
                          else reason decision) \<rparr>)"

text \<open>
  The body of the two scoring loops: the running best is replaced when there
  is none yet or the new score is strictly greater.
\<close>

definition keep_better :: "(string \<times> real) option \<Rightarrow> string \<Rightarrow> real \<Rightarrow> (string \<times> real) option" where
  "keep_better best i score =
     (case best of
        None \<Rightarrow> Some (i, score)
      | Some b \<Rightarrow> if score > snd b then Some (i, score) else best)"

definition fallbackAssignment ::
  "PendingMessage \<Rightarrow> ThreadCandidate list \<Rightarrow> string \<Rightarrow> AssignmentDecision" where
  "fallbackAssignment pending candidates defaultTitle =
     (let messageText = content_p pending;
          best = foldl (\<lambda>best candidate.
                    keep_better best (id_c candidate)
                      (scoreSimilarity messageText
                         (title_c candidate @ '' '' @ recent_excerpt candidate)))
                  None candidates
      in case best of
           Some b \<Rightarrow>
             if snd b \<ge> 0.26
             then \<lparr> action = Assign,
                    threadId = Some (fst b),
                    title = None,
                    confidence = Some (min 1 (snd b + 0.25)),
                    reason = ''Heuristic token overlap matched an existing thread.'' \<rparr>
             else \<lparr> action = Create,
                    threadId = None,
                    title = Some defaultTitle,
                    confidence = Some 0.62,
                    reason = ''No strong overlap with existing active threads.'' \<rparr>
         | None \<Rightarrow>
             \<lparr> action = Create,
               threadId = None,
               title = Some defaultTitle,
               confidence = Some 0.62,
               reason = ''No strong overlap with existing active threads.'' \<rparr>)"

section \<open>Revival source\<close>

text \<open>The test on the provider's answer in \<^verbatim>\<open>findRevivalSource\<close>.\<close>

definition revivalAccepted :: "RevivalDecision \<Rightarrow> ArchivedCandidate list \<Rightarrow> bool" where
  "revivalAccepted aiDecision rows =
     (truthy (archivedThreadId aiDecision) \<and>
      confidence_r aiDecision \<ge> 0.62 \<and>
      list_ex (\<lambda>row. Some (id_a row) = archivedThreadId aiDecision) rows)"

text \<open>The scoring loop that ends \<^verbatim>\<open>findRevivalSource\<close>.\<close>

definition revivalHeuristic :: "PendingMessage \<Rightarrow> ArchivedCandidate list \<Rightarrow> string option" where
  "revivalHeuristic pending rows =
     (let best = foldl (\<lambda>best candidate.
                    keep_better best (id_a candidate)
                      (scoreSimilarity (content_p pending)
                         (title_a candidate @ '' '' @ recent_excerpt_a candidate)))
                  None rows
      in case best of
           Some b \<Rightarrow> if snd b \<ge> 0.31 then Some (fst b) else None
         | None \<Rightarrow> None)"

text \<open>
  \<open>archived\<close> is the result of the query for archived threads. A provider
  that is disabled or throws leaves \<open>None\<close> for its answer.
\<close>

definition findRevivalSource ::
  "AIDecider \<Rightarrow> ArchivedCandidate list \<Rightarrow> PendingMessage \<Rightarrow> string option" where
  "findRevivalSource ai archived pending =
     (if length archived = 0 then None
      else (case (if enabled ai
                  then decideRevivalLink ai
                         \<lparr> author_ai = author_p pending,
                           content_ai = content_p pending,
                           created_at_ai = created_at_p pending \<rparr> archived
                  else None) of
              Some aiDecision \<Rightarrow>
                if revivalAccepted aiDecision archived then archivedThreadId aiDecision
                else revivalHeuristic pending archived
            | None \<Rightarrow> revivalHeuristic pending archived))"

section \<open>Persisted store\<close>

text \<open>
  The two tables. A statement that fails raises; the enclosing transaction is
  rolled back and the store stays as it was.
\<close>

record Store =
  threads :: "ThreadRecord list"
  messages :: "MessageRecord list"

datatype EngineError =
  UniqueViolation | ForeignKeyViolation | NoThreadId | QueryFailed | InvalidPayload

definition thread_ids :: "Store \<Rightarrow> string set" where
  "thread_ids s = set (map id_t (threads s))"

record Config =
  ACTIVE_TO_COOLING_MINUTES :: int
  COOLING_TO_ARCHIVED_HOURS :: int

text \<open>\<^verbatim>\<open>make_interval\<close> in microseconds.\<close>

definition interval_mins :: "int \<Rightarrow> int" where
  "interval_mins n = n * 60000000"

definition interval_hours :: "int \<Rightarrow> int" where
  "interval_hours n = n * 3600000000"

subsection \<open>Candidate queries\<close>

text \<open>
  The lateral subquery with \<^verbatim>\<open>STRING_AGG\<close> that the three candidate queries
  share: the contents of the \<open>n\<close> most recent messages of a thread, newest
  first, joined by line feeds, and the empty string when the thread has no
  message. SQL leaves the order of rows of equal rank open; here they keep
  the order of the table.
\<close>

fun join_lf :: "string list \<Rightarrow> string" where
  "join_lf [] = []"
| "join_lf [x] = x"
| "join_lf (x # y # rest) = x @ [CHR 0x0A] @ join_lf (y # rest)"

definition recent_contents :: "nat \<Rightarrow> string \<Rightarrow> MessageRecord list \<Rightarrow> string" where
  "recent_contents n tid ms =
     join_lf (map content_m
       (take n (sort_key (\<lambda>m. - created_at_m m) (filter (\<lambda>m. thread_id m = Some tid) ms))))"

text \<open>\<^verbatim>\<open>ORDER BY COALESCE(t.last_message_at, t.updated_at) DESC\<close>\<close>

definition by_recency :: "ThreadRecord list \<Rightarrow> ThreadRecord list" where
  "by_recency ts =
     sort_key (\<lambda>t. - (case last_message_at t of None \<Rightarrow> updated_at t | Some l \<Rightarrow> l)) ts"

text \<open>
  \<^verbatim>\<open>fetchActiveThreadCandidates\<close>; \<open>limit\<close> is
  \<^verbatim>\<open>config.MAX_ACTIVE_THREAD_CANDIDATES\<close>.
\<close>

definition fetchActiveThreadCandidates :: "nat \<Rightarrow> Store \<Rightarrow> ThreadCandidate list" where
  "fetchActiveThreadCandidates limit s =
     take limit
       (map (\<lambda>t. \<lparr> id_c = id_t t, title_c = title_t t, state_c = state t,
                   last_message_at_c = last_message_at t,
                   recent_excerpt = recent_contents 6 (id_t t) (messages s) \<rparr>)
          (by_recency (filter (\<lambda>t. state t \<in> {Active, Cooling}) (threads s))))"

text \<open>
  The query at the head of \<^verbatim>\<open>findRevivalSource\<close>; \<open>limit\<close> is
  \<^verbatim>\<open>config.MAX_ARCHIVED_THREAD_CANDIDATES\<close>.
\<close>

definition fetchArchivedCandidates :: "nat \<Rightarrow> Store \<Rightarrow> ArchivedCandidate list" where
  "fetchArchivedCandidates limit s =
     take limit
       (map (\<lambda>t. \<lparr> id_a = id_t t, title_a = title_t t,
                   recent_excerpt_a = recent_contents 8 (id_t t) (messages s) \<rparr>)
          (by_recency (filter (\<lambda>t. state t = Archived) (threads s))))"

text \<open>\<^verbatim>\<open>fetchMergeCandidates\<close>\<close>

definition fetchMergeCandidates :: "Store \<Rightarrow> MergeCandidate list" where
  "fetchMergeCandidates s =
     take 16
       (map (\<lambda>t. \<lparr> id_c = id_t t, title_c = title_t t, state_c = state t,
                   last_message_at_c = last_message_at t,
                   recent_excerpt = recent_contents 5 (id_t t) (messages s) \<rparr>)
          (by_recency (filter (\<lambda>t. state t \<in> {Active, Cooling}) (threads s))))"

subsection \<open>Producer\<close>

text \<open>
  \<^verbatim>\<open>POST /api/messages\<close> of \<^verbatim>\<open>src/server.ts\<close>; \<open>newId\<close> and \<open>now\<close> are
  the column defaults \<^verbatim>\<open>gen_random_uuid()\<close> and \<^verbatim>\<open>NOW()\<close>.
\<close>

definition postMessage ::
  "string \<Rightarrow> string \<Rightarrow> string \<Rightarrow> timestamptz \<Rightarrow> Store \<Rightarrow> EngineError + Store" where
  "postMessage author content newId now s =
     (let a = trim author; c = trim content
      in if length a < 1 \<or> length a > 40 \<or> length c < 1 \<or> length c > 2000
         then Inl InvalidPayload
         else if newId \<in> set (map id_m (messages s)) then Inl UniqueViolation
         else Inr (s\<lparr> messages := messages s @
                   [\<lparr> id_m = newId, created_at_m = now, author_m = a, content_m = c,
                      thread_id = None, assignment_status = Pending,
                      assignment_note = None \<rparr>] \<rparr>))"

subsection \<open>Lifecycle loop\<close>

text \<open>
  The two \<^verbatim>\<open>UPDATE\<close> statements of \<^verbatim>\<open>lifecycleTick\<close>, each with its own
  reading of \<^verbatim>\<open>NOW()\<close>. The busy flags of the three loops only keep a tick
  from overlapping itself and are not part of the store.
\<close>

definition coolThreads :: "Config \<Rightarrow> timestamptz \<Rightarrow> Store \<Rightarrow> Store" where
  "coolThreads cfg now s =
     s\<lparr> threads := map (\<lambda>t.
           if state t = Active \<and>
              (case last_message_at t of
                 None \<Rightarrow> False
               | Some l \<Rightarrow> l < now - interval_mins (ACTIVE_TO_COOLING_MINUTES cfg))
           then t\<lparr> state := Cooling, updated_at := now \<rparr>
           else t) (threads s) \<rparr>"

definition archiveThreads :: "Config \<Rightarrow> timestamptz \<Rightarrow> Store \<Rightarrow> Store" where
  "archiveThreads cfg now s =
     s\<lparr> threads := map (\<lambda>t.
           if state t = Cooling \<and>
              (case last_message_at t of
                 None \<Rightarrow> False
               | Some l \<Rightarrow> l < now - interval_hours (COOLING_TO_ARCHIVED_HOURS cfg))
           then t\<lparr> state := Archived,
                   archived_at := (case archived_at t of None \<Rightarrow> Some now | Some a \<Rightarrow> Some a),
                   updated_at := now \<rparr>
           else t) (threads s) \<rparr>"

definition lifecycleTick :: "Config \<Rightarrow> timestamptz \<Rightarrow> timestamptz \<Rightarrow> Store \<Rightarrow> Store" where
  "lifecycleTick cfg now1 now2 s = archiveThreads cfg now2 (coolThreads cfg now1 s)"

subsection \<open>Merge loop\<close>

record MergePair =
  source :: MergeCandidate
  target :: MergeCandidate
  score :: real

text \<open>The pairs \<open>(candidates[i], candidates[j])\<close>, \<open>i < j\<close>, in the order of the two loops.\<close>

fun candidate_pairs :: "MergeCandidate list \<Rightarrow> (MergeCandidate \<times> MergeCandidate) list" where
  "candidate_pairs [] = []"
| "candidate_pairs (first # rest) = map (Pair first) rest @ candidate_pairs rest"

definition findMergePair :: "MergeCandidate list \<Rightarrow> MergePair option" where
  "findMergePair candidates =
     (let best = foldl (\<lambda>best (first, second).
                    let sc = scoreSimilarity
                               (title_c first @ '' '' @ recent_excerpt first)
                               (title_c second @ '' '' @ recent_excerpt second)
                    in (case best of
                          None \<Rightarrow> Some \<lparr> source = first, target = second, score = sc \<rparr>
                        | Some b \<Rightarrow>
                            if sc > score b
                            then Some \<lparr> source = first, target = second, score = sc \<rparr>
                            else best))
                  None (candidate_pairs candidates)
      in case best of
           None \<Rightarrow> None
         | Some b \<Rightarrow> if score b < 0.58 then None else Some b)"

text \<open>
  Lines 208 to 230 of \<^verbatim>\<open>mergeTick\<close>: the three variables \<^verbatim>\<open>shouldMerge\<close>,
  \<^verbatim>\<open>sourceThreadId\<close> and \<^verbatim>\<open>targetThreadId\<close> after the provider's answer and
  the check of its ids.
\<close>

definition mergeDecisionVars :: "AIDecider \<Rightarrow> MergePair \<Rightarrow> bool \<times> string \<times> string" where
  "mergeDecisionVars ai pair =
     (let heuristic = (score pair \<ge> 0.78, id_c (source pair), id_c (target pair));
          (shouldMerge1, sourceThreadId1, targetThreadId1) =
             (if enabled ai
              then (case decideMerge ai (source pair) (target pair) of
                      Some decision \<Rightarrow>
                        (shouldMerge_m decision \<and> confidence_m decision \<ge> 0.6,
                         sourceThreadId_m decision, targetThreadId_m decision)
                    | None \<Rightarrow> heuristic)
              else heuristic);
          validIds = {id_c (source pair), id_c (target pair)};
          (sourceThreadId2, targetThreadId2) =
             (if sourceThreadId1 \<notin> validIds \<or> targetThreadId1 \<notin> validIds
              then (id_c (source pair), id_c (target pair))
              else (sourceThreadId1, targetThreadId1));
          shouldMerge2 = (if sourceThreadId2 = targetThreadId2 then False else shouldMerge1)
      in (shouldMerge2, sourceThreadId2, targetThreadId2))"

text \<open>
  \<^verbatim>\<open>last_message_at ?? ""\<close> as the operator \<^verbatim>\<open>>\<close> reads it. The driver hands a
  \<^verbatim>\<open>TIMESTAMPTZ\<close> to the code as a JavaScript \<^verbatim>\<open>Date\<close>, which keeps the
  whole milliseconds since the Unix epoch; \<^verbatim>\<open>>\<close> compares a \<^verbatim>\<open>Date\<close> by that
  number and the empty string as the number 0.
\<close>

definition js_number :: "timestamptz option \<Rightarrow> int" where
  "js_number v = (case v of None \<Rightarrow> 0 | Some x \<Rightarrow> x div 1000)"

text \<open>\<^verbatim>\<open>sourceLast > targetLast\<close>\<close>

definition later_than :: "timestamptz option \<Rightarrow> timestamptz option \<Rightarrow> bool" where
  "later_than a b = (js_number a > js_number b)"

text \<open>
  Lines 208 to 241: \<open>None\<close> when the tick returns without merging, otherwise
  the source and the target passed to the transaction.
\<close>

definition resolveMerge :: "AIDecider \<Rightarrow> MergePair \<Rightarrow> (string \<times> string) option" where
  "resolveMerge ai pair =
     (let (shouldMerge, sourceThreadId, targetThreadId) = mergeDecisionVars ai pair
      in if \<not> shouldMerge then None
         else if later_than (last_message_at_c (source pair)) (last_message_at_c (target pair))
         then Some (targetThreadId, sourceThreadId)
         else Some (sourceThreadId, targetThreadId))"

text \<open>\<^verbatim>\<open>SELECT MAX(created_at) FROM messages WHERE thread_id = $1\<close>\<close>

definition max_created_at :: "string \<Rightarrow> MessageRecord list \<Rightarrow> timestamptz option" where
  "max_created_at tid ms =
     (let rows = filter (\<lambda>m. thread_id m = Some tid) ms
      in if rows = [] then None else Some (Max (set (map created_at_m rows))))"

text \<open>
  The transaction of \<^verbatim>\<open>mergeTick\<close>. \<open>Inr None\<close> is the rollback when no source
  row qualifies; \<open>Inl\<close> is a statement that raised (the reference
  \<^verbatim>\<open>merged_into_thread_id\<close> must name a row of \<^verbatim>\<open>threads\<close>).
\<close>

definition mergeTransaction ::
  "timestamptz \<Rightarrow> string \<Rightarrow> string \<Rightarrow> Store \<Rightarrow> EngineError + Store option" where
  "mergeTransaction now sourceThreadId targetThreadId s =
     (let qualifies = (\<lambda>t. id_t t = sourceThreadId \<and> state t \<in> {Active, Cooling})
      in if filter qualifies (threads s) = [] then Inr None
         else if targetThreadId \<notin> thread_ids s then Inl ForeignKeyViolation
         else
           (let threads1 = map (\<lambda>t. if qualifies t
                                 then t\<lparr> state := Superseded,
                                         merged_into_thread_id := Some targetThreadId,
                                         superseded_at := Some now,
                                         updated_at := now \<rparr>
                                 else t) (threads s);
                messages1 = map (\<lambda>m. if thread_id m = Some sourceThreadId
                                  then m\<lparr> thread_id := Some targetThreadId \<rparr>
                                  else m) (messages s);
                threads2 = map (\<lambda>t. if id_t t = targetThreadId
                                 then t\<lparr> state := Active,
                                         last_message_at := max_created_at targetThreadId messages1,
                                         updated_at := now \<rparr>
                                 else t) threads1
            in Inr (Some \<lparr> threads = threads2, messages = messages1 \<rparr>)))"

text \<open>
  \<open>candidates\<close> is the result of \<^verbatim>\<open>fetchMergeCandidates\<close>, \<open>None\<close> when the
  query raised. Every failure is logged and leaves the store unchanged.
\<close>

definition mergeTick ::
  "AIDecider \<Rightarrow> MergeCandidate list option \<Rightarrow> timestamptz \<Rightarrow> Store \<Rightarrow> Store" where
  "mergeTick ai fetched now s =
     (case fetched of
        None \<Rightarrow> s
      | Some candidates \<Rightarrow>
          if length candidates < 2 then s
          else (case findMergePair candidates of
                  None \<Rightarrow> s
                | Some pair \<Rightarrow>
                    (case resolveMerge ai pair of
                       None \<Rightarrow> s
                     | Some (sourceThreadId, targetThreadId) \<Rightarrow>
                         (case mergeTransaction now sourceThreadId targetThreadId s of
                            Inr (Some s') \<Rightarrow> s'
                          | Inr None \<Rightarrow> s
                          | Inl e \<Rightarrow> s))))"

subsection \<open>Assignment loop\<close>

text \<open>
  \<^verbatim>\<open>claimPendingMessage\<close>: the oldest pending row (the first such row of the
  table when several are equally old) is set to \<^verbatim>\<open>in_progress\<close> and returned.
\<close>

definition claimPendingMessage :: "Store \<Rightarrow> PendingMessage option \<times> Store" where
  "claimPendingMessage s =
     (let picked = filter (\<lambda>m. assignment_status m = Pending) (messages s)
      in if length picked = 0 then (None, s)
         else (let row = arg_min_list created_at_m picked;
                   pending = \<lparr> id_p = id_m row, created_at_p = created_at_m row,
                               author_p = author_m row, content_p = content_m row \<rparr>
               in (Some pending,
                   s\<lparr> messages := map (\<lambda>m. if id_m m = id_p pending
                                         then m\<lparr> assignment_status := In_progress \<rparr>
                                         else m) (messages s) \<rparr>)))"

record AssignmentResult =
  threadId_r :: string
  createdThreadId :: "string option"
  revivalLink :: "(string \<times> string) option"

text \<open>The \<^verbatim>\<open>INSERT INTO threads\<close>; the primary key rejects an id already there.\<close>

definition insertThread ::
  "string \<Rightarrow> timestamptz \<Rightarrow> string \<Rightarrow> timestamptz \<Rightarrow> Store \<Rightarrow> EngineError + Store" where
  "insertThread ttl lastMessageAt newId now s =
     (if newId \<in> thread_ids s then Inl UniqueViolation
      else Inr (s\<lparr> threads := threads s @
                [\<lparr> id_t = newId, title_t = ttl, state = Active, created_at_t = now,
                   updated_at = now, last_message_at = Some lastMessageAt,
                   archived_at = None, superseded_at = None, revives_thread_id = None,
                   continued_in_thread_id = None, merged_into_thread_id = None \<rparr>] \<rparr>))"

text \<open>
  The \<^verbatim>\<open>UPDATE\<close> of the archived thread, guarded by \<^verbatim>\<open>state = 'archived'\<close>,
  with its row count.
\<close>

definition supersedeArchived ::
  "string \<Rightarrow> string \<Rightarrow> timestamptz \<Rightarrow> Store \<Rightarrow> nat \<times> Store" where
  "supersedeArchived revivalSourceId tid now s =
     (let qualifies = (\<lambda>t. id_t t = revivalSourceId \<and> state t = Archived)
      in (length (filter qualifies (threads s)),
          s\<lparr> threads := map (\<lambda>t. if qualifies t
                               then t\<lparr> state := Superseded,
                                       superseded_at := Some now,
                                       continued_in_thread_id := Some tid,
                                       updated_at := now \<rparr>
                               else t) (threads s) \<rparr>))"

definition setRevives :: "string \<Rightarrow> string \<Rightarrow> timestamptz \<Rightarrow> Store \<Rightarrow> Store" where
  "setRevives tid revivalSourceId now s =
     s\<lparr> threads := map (\<lambda>t. if id_t t = tid
                          then t\<lparr> revives_thread_id := Some revivalSourceId, updated_at := now \<rparr>
                          else t) (threads s) \<rparr>"

text \<open>
  The \<^verbatim>\<open>UPDATE messages\<close> of \<^verbatim>\<open>applyAssignment\<close>; \<^verbatim>\<open>thread_id\<close> must name a
  row of \<^verbatim>\<open>threads\<close>.
\<close>

definition assignMessage :: "string \<Rightarrow> string \<Rightarrow> string \<Rightarrow> Store \<Rightarrow> EngineError + Store" where
  "assignMessage pid tid note s =
     (if list_ex (\<lambda>m. id_m m = pid) (messages s) \<and> tid \<notin> thread_ids s
      then Inl ForeignKeyViolation
      else Inr (s\<lparr> messages := map (\<lambda>m. if id_m m = pid
                                     then m\<lparr> thread_id := Some tid,
                                             assignment_status := Assigned,
                                             assignment_note := Some note \<rparr>
                                     else m) (messages s) \<rparr>))"

definition touchThread :: "string \<Rightarrow> timestamptz \<Rightarrow> timestamptz \<Rightarrow> Store \<Rightarrow> Store" where
  "touchThread tid ts now s =
     s\<lparr> threads := map (\<lambda>t. if id_t t = tid
                          then t\<lparr> state := (if state t = Cooling then Active else state t),
                                  updated_at := now,
                                  last_message_at :=
                                    Some (max (case last_message_at t of None \<Rightarrow> ts | Some l \<Rightarrow> l) ts) \<rparr>
                          else t) (threads s) \<rparr>"

text \<open>
  Lines 587 to 632 of \<^verbatim>\<open>applyAssignment\<close>: the new thread and its revival
  link. The result is the store with \<^verbatim>\<open>threadId\<close>, \<^verbatim>\<open>createdThreadId\<close> and
  \<^verbatim>\<open>revivalLink\<close>.
\<close>

definition createThread ::
  "PendingMessage \<Rightarrow> AssignmentDecision \<Rightarrow> string option \<Rightarrow> string \<Rightarrow> timestamptz \<Rightarrow> Store \<Rightarrow>
     EngineError + (Store \<times> string option \<times> string option \<times> (string \<times> string) option)" where
  "createThread pending decision revivalSourceId newId now s =
     (case insertThread
             (case title decision of None \<Rightarrow> buildTitle (content_p pending) | Some x \<Rightarrow> x)
             (created_at_p pending) newId now s of
        Inl e \<Rightarrow> Inl e
      | Inr s1 \<Rightarrow>
          (case revivalSourceId of
             None \<Rightarrow> Inr (s1, Some newId, Some newId, None)
           | Some rid \<Rightarrow>
               if rid = [] then Inr (s1, Some newId, Some newId, None)
               else (let (rowCount, s2) = supersedeArchived rid newId now s1
                     in if rowCount > 0
                        then Inr (setRevives newId rid now s2, Some newId, Some newId,
                                  Some (rid, newId))
                        else Inr (s2, Some newId, Some newId, None))))"

text \<open>
  \<^verbatim>\<open>applyAssignment\<close>, one transaction; \<open>newId\<close> is the id that
  \<^verbatim>\<open>gen_random_uuid()\<close> gives a new thread.
\<close>

definition applyAssignment ::
  "PendingMessage \<Rightarrow> AssignmentDecision \<Rightarrow> string option \<Rightarrow> string \<Rightarrow> timestamptz \<Rightarrow> Store \<Rightarrow>
     EngineError + (Store \<times> AssignmentResult)" where
  "applyAssignment pending decision revivalSourceId newId now s =
     (case (if action decision = Create \<or> \<not> truthy (threadId decision)
            then createThread pending decision revivalSourceId newId now s
            else Inr (s, threadId decision, None, None)) of
        Inl e \<Rightarrow> Inl e
      | Inr (s1, tidOpt, created, link) \<Rightarrow>
          (case tidOpt of
             None \<Rightarrow> Inl NoThreadId
           | Some tid \<Rightarrow>
               if tid = [] then Inl NoThreadId
               else (case assignMessage (id_p pending) tid (reason decision) s1 of
                       Inl e \<Rightarrow> Inl e
                     | Inr s2 \<Rightarrow>
                         Inr (touchThread tid (created_at_p pending) now s2,
                              \<lparr> threadId_r = tid, createdThreadId = created,
                                revivalLink = link \<rparr>))))"

definition markFailed :: "string \<Rightarrow> Store \<Rightarrow> Store" where
  "markFailed pid s =
     s\<lparr> messages := map (\<lambda>m. if id_m m = pid
                           then m\<lparr> assignment_status := Failed,
                                   assignment_note := Some ''Assignment failed. Check server logs.'' \<rparr>
                           else m) (messages s) \<rparr>"

text \<open>
  Lines 322 to 343 of \<^verbatim>\<open>processSinglePendingMessage\<close>: the decision for a
  claimed message.
\<close>

definition decideFor ::
  "AIDecider \<Rightarrow> PendingMessage \<Rightarrow> ThreadCandidate list \<Rightarrow> AssignmentDecision" where
  "decideFor ai pending candidates =
     (let defaultTitle = buildTitle (content_p pending);
          messageForAI = \<lparr> author_ai = author_p pending, content_ai = content_p pending,
                           created_at_ai = created_at_p pending \<rparr>
      in if length candidates = 0
         then \<lparr> action = Create, threadId = None, title = Some defaultTitle,
                confidence = Some 1, reason = ''First thread in the system.'' \<rparr>
         else if enabled ai
         then (case decideAssignment ai messageForAI candidates of
                 Some aiDecision \<Rightarrow> normalizeAssignmentDecision aiDecision candidates defaultTitle
               | None \<Rightarrow> fallbackAssignment pending candidates defaultTitle)
         else fallbackAssignment pending candidates defaultTitle)"

text \<open>
  The \<^verbatim>\<open>try\<close> block of \<^verbatim>\<open>processSinglePendingMessage\<close> for a claimed
  message. \<open>fetchedActive\<close> and \<open>fetchedArchived\<close> are the results of the two
  candidate queries, \<open>None\<close> when the query raised.
\<close>

definition attemptAssignment ::
  "AIDecider \<Rightarrow> ThreadCandidate list option \<Rightarrow> ArchivedCandidate list option \<Rightarrow> string \<Rightarrow>
     timestamptz \<Rightarrow> PendingMessage \<Rightarrow> Store \<Rightarrow> EngineError + (Store \<times> AssignmentResult)" where
  "attemptAssignment ai fetchedActive fetchedArchived newId now pending s1 =
     (case fetchedActive of
        None \<Rightarrow> Inl QueryFailed
      | Some candidates \<Rightarrow>
          (let decision = decideFor ai pending candidates
           in case (if action decision = Create
                    then (case fetchedArchived of
                            None \<Rightarrow> Inl QueryFailed
                          | Some rows \<Rightarrow> Inr (findRevivalSource ai rows pending))
                    else Inr None) of
                Inl e \<Rightarrow> Inl e
              | Inr revivalSourceId \<Rightarrow>
                  applyAssignment pending decision revivalSourceId newId now s1))"

text \<open>
  \<^verbatim>\<open>processSinglePendingMessage\<close>: the claim, the attempt, and the \<^verbatim>\<open>catch\<close>
  block that marks the message failed. The notifications sent after the commit
  do not touch the store.
\<close>

definition processSinglePendingMessage ::
  "AIDecider \<Rightarrow> ThreadCandidate list option \<Rightarrow> ArchivedCandidate list option \<Rightarrow> string \<Rightarrow>
     timestamptz \<Rightarrow> Store \<Rightarrow> bool \<times> Store" where
  "processSinglePendingMessage ai fetchedActive fetchedArchived newId now s =
     (case claimPendingMessage s of
        (None, s0) \<Rightarrow> (False, s0)
      | (Some pending, s1) \<Rightarrow>
          (case attemptAssignment ai fetchedActive fetchedArchived newId now pending s1 of
             Inr (s2, assignment) \<Rightarrow> (True, s2)
           | Inl e \<Rightarrow> (True, markFailed (id_p pending) s1)))"

section \<open>The engine as a transition system\<close>

text \<open>
  One step is a posted message, one pass of \<^verbatim>\<open>processSinglePendingMessage\<close>,
  one lifecycle tick, or the transaction of one merge tick. The three loops
  run side by side, and a merge tick reads its candidates, waits for the
  provider and for a connection, and only then commits: the rows it commits on
  are those of an earlier store, so they are arbitrary in the step, as are the
  provider's answers, the clock, the new ids and the rows the assignment
  queries return.
\<close>

inductive engine_step :: "Store \<Rightarrow> Store \<Rightarrow> bool" where
  post: "postMessage author content newId now s = Inr s' \<Longrightarrow> engine_step s s'"
| assign: "processSinglePendingMessage ai fetchedActive fetchedArchived newId now s = (b, s')
     \<Longrightarrow> engine_step s s'"
| lifecycle: "engine_step s (lifecycleTick cfg now1 now2 s)"
| merge: "engine_step s (mergeTick ai fetched now s)"

inductive reachable :: "Store \<Rightarrow> bool" where
  init: "reachable \<lparr> threads = [], messages = [] \<rparr>"
| step: "reachable s \<Longrightarrow> engine_step s s' \<Longrightarrow> reachable s'"

section \<open>The specification's words\<close>

text \<open>
  The Jaccard similarity between the tokenised content of the message and the
  title plus recent excerpt of a candidate.
\<close>

definition candidateScore :: "PendingMessage \<Rightarrow> ThreadCandidate \<Rightarrow> real" where
  "candidateScore pending c =
     jaccard (tokenize (content_p pending)) (tokenize (title_c c @ '' '' @ recent_excerpt c))"

text \<open>
  An assignment the specification accepts: the action is assign, the thread id
  is present (a non-empty string) and is the id of an offered candidate, and
  the confidence is at least 0.45.
\<close>

definition acceptedAssign :: "AssignmentDecision \<Rightarrow> ThreadCandidate list \<Rightarrow> bool" where
  "acceptedAssign d cs =
     (action d = Assign \<and>
      (\<exists>i. threadId d = Some i \<and> i \<noteq> [] \<and> i \<in> id_c ` set cs) \<and>
      (\<exists>c. confidence d = Some c \<and> c \<ge> 0.45))"

text \<open>
  The Jaccard similarity between the tokenised content of the message and the
  title plus recent excerpt of an archived candidate.
\<close>

definition archivedScore :: "PendingMessage \<Rightarrow> ArchivedCandidate \<Rightarrow> real" where
  "archivedScore pending c =
     jaccard (tokenize (content_p pending)) (tokenize (title_a c @ '' '' @ recent_excerpt_a c))"

text \<open>
  The two directions of a revival link agree: a thread names another as the
  one it revives exactly when that one names it as its continuation.
\<close>

definition revival_linked :: "Store \<Rightarrow> bool" where
  "revival_linked s =
     (\<forall>x\<in>set (threads s). \<forall>y\<in>set (threads s).
        (revives_thread_id x = Some (id_t y)) = (continued_in_thread_id y = Some (id_t x)))"

text \<open>The order of the assignment statuses: pending, then in progress, then the two final ones.\<close>

fun status_rank :: "AssignmentStatus \<Rightarrow> nat" where
  "status_rank Pending = 0"
| "status_rank In_progress = 1"
| "status_rank Assigned = 2"
| "status_rank Failed = 2"

text \<open>
  A thread is due at a lifecycle pass with the clock readings \<open>now1\<close> and
  \<open>now2\<close> when one of the two thresholds has passed for it as it stands: it
  is active and its last message is older than \<^verbatim>\<open>ACTIVE_TO_COOLING_MINUTES\<close> at
  the first reading, or it is cooling and its last message is older than
  \<^verbatim>\<open>COOLING_TO_ARCHIVED_HOURS\<close> at the second.
\<close>

definition lifecycle_due :: "Config \<Rightarrow> timestamptz \<Rightarrow> timestamptz \<Rightarrow> ThreadRecord \<Rightarrow> bool" where
  "lifecycle_due cfg now1 now2 t =
     (case last_message_at t of
        None \<Rightarrow> False
      | Some l \<Rightarrow>
          (state t = Active \<and> l < now1 - interval_mins (ACTIVE_TO_COOLING_MINUTES cfg)) \<or>
          (state t = Cooling \<and> l < now2 - interval_hours (COOLING_TO_ARCHIVED_HOURS cfg)))"

section \<open>Sample data\<close>

definition ex_pending :: PendingMessage where
  "ex_pending = \<lparr> id_p = ''m1'', created_at_p = 50000, author_p = ''ann'',
                   content_p = ''the deploy pipeline is still broken'' \<rparr>"

definition ex_lunch :: ThreadCandidate where
  "ex_lunch = \<lparr> id_c = ''t1'', title_c = ''Lunch'', state_c = Active,
                 last_message_at_c = Some 40, recent_excerpt = ''where to eat today'' \<rparr>"

definition ex_deploy :: ThreadCandidate where
  "ex_deploy = \<lparr> id_c = ''t2'', title_c = ''Deploy'', state_c = Active,
                  last_message_at_c = Some 30, recent_excerpt = ''deploy pipeline broken'' \<rparr>"

definition ex_ai_assign :: AssignmentDecision where
  "ex_ai_assign = \<lparr> action = Assign, threadId = Some ''t2'', title = None,
                     confidence = Some 0.9, reason = ''same incident'' \<rparr>"

definition ex_ai_unsure :: AssignmentDecision where
  "ex_ai_unsure = \<lparr> action = Assign, threadId = Some ''t2'', title = None,
                     confidence = Some 0.3, reason = [] \<rparr>"

definition ex_B :: MergeCandidate where
  "ex_B = \<lparr> id_c = ''tB'', title_c = ''Deploy pipeline'', state_c = Active,
             last_message_at_c = Some 40000, recent_excerpt = ''deploy pipeline broken again'' \<rparr>"

definition ex_C :: MergeCandidate where
  "ex_C = \<lparr> id_c = ''tC'', title_c = ''Deploy pipeline'', state_c = Cooling,
             last_message_at_c = Some 30000, recent_excerpt = ''deploy pipeline broken again'' \<rparr>"

definition ex_pair :: MergePair where
  "ex_pair = \<lparr> source = ex_B, target = ex_C, score = 1 \<rparr>"

text \<open>A provider that is switched off: every call throws.\<close>

definition ai_off :: AIDecider where
  "ai_off = \<lparr> enabled = False, decideAssignment = (\<lambda>m cs. None),
               decideRevivalLink = (\<lambda>m rows. None), decideMerge = (\<lambda>a b. None) \<rparr>"

text \<open>A provider that answers a merge request for the sample pair with the given decision.\<close>

definition ai_merge :: "MergeDecision \<Rightarrow> AIDecider" where
  "ai_merge d = \<lparr> enabled = True, decideAssignment = (\<lambda>m cs. None),
                  decideRevivalLink = (\<lambda>m rows. None), decideMerge = (\<lambda>a b. Some d) \<rparr>"

definition ex_decline :: MergeDecision where
  "ex_decline = \<lparr> shouldMerge_m = False, sourceThreadId_m = ''tB'', targetThreadId_m = ''tC'',
                   confidence_m = 0.9, reason_m = ''different incidents'' \<rparr>"

definition ex_reversed :: MergeDecision where
  "ex_reversed = \<lparr> shouldMerge_m = True, sourceThreadId_m = ''tC'', targetThreadId_m = ''tB'',
                    confidence_m = 0.9, reason_m = ''duplicates'' \<rparr>"

definition ex_threadB :: ThreadRecord where
  "ex_threadB = \<lparr> id_t = ''tB'', title_t = ''Deploy pipeline'', state = Active,
                   created_at_t = 10000, updated_at = 40000, last_message_at = Some 40000,
                   archived_at = None, superseded_at = None, revives_thread_id = None,
                   continued_in_thread_id = None, merged_into_thread_id = None \<rparr>"

definition ex_threadC :: ThreadRecord where
  "ex_threadC = \<lparr> id_t = ''tC'', title_t = ''Deploy pipeline'', state = Cooling,
                   created_at_t = 5000, updated_at = 30000, last_message_at = Some 30000,
                   archived_at = None, superseded_at = None, revives_thread_id = None,
                   continued_in_thread_id = None, merged_into_thread_id = None \<rparr>"

definition ex_msg :: "string \<Rightarrow> timestamptz \<Rightarrow> string \<Rightarrow> MessageRecord" where
  "ex_msg i ts tid = \<lparr> id_m = i, created_at_m = ts, author_m = ''ann'',
                       content_m = ''deploy pipeline broken again'', thread_id = Some tid,
                       assignment_status = Assigned, assignment_note = None \<rparr>"

definition ex_store :: Store where
  "ex_store = \<lparr> threads = [ex_threadB, ex_threadC],
                 messages = [ex_msg ''m1'' 40000 ''tB'', ex_msg ''m2'' 30000 ''tC'',
                             ex_msg ''m3'' 20000 ''tC''] \<rparr>"

definition ex_D :: ArchivedCandidate where
  "ex_D = \<lparr> id_a = ''tD'', title_a = ''Deploy'', recent_excerpt_a = ''deploy pipeline broken'' \<rparr>"

text \<open>A provider that answers a revival request with the given decision.\<close>

definition ai_revival :: "RevivalDecision \<Rightarrow> AIDecider" where
  "ai_revival d = \<lparr> enabled = True, decideAssignment = (\<lambda>m cs. None),
                    decideRevivalLink = (\<lambda>m rows. Some d), decideMerge = (\<lambda>a b. None) \<rparr>"

definition ex_no_revival :: RevivalDecision where
  "ex_no_revival = \<lparr> archivedThreadId = None, confidence_r = 0.9 \<rparr>"

definition ex_revive_D :: RevivalDecision where
  "ex_revive_D = \<lparr> archivedThreadId = Some ''tD'', confidence_r = 0.7 \<rparr>"

definition ex_cfg :: Config where
  "ex_cfg = \<lparr> ACTIVE_TO_COOLING_MINUTES = 30, COOLING_TO_ARCHIVED_HOURS = 72 \<rparr>"

definition ex_create :: AssignmentDecision where
  "ex_create = \<lparr> action = Create, threadId = None, title = Some ''Deploy again'',
                  confidence = Some 0.62, reason = ''No strong overlap with existing active threads.'' \<rparr>"

definition ex_pending_msg :: MessageRecord where
  "ex_pending_msg = \<lparr> id_m = ''m1'', created_at_m = 50000, author_m = ''ann'',
                       content_m = ''the deploy pipeline is still broken'', thread_id = None,
                       assignment_status = In_progress, assignment_note = None \<rparr>"

text \<open>The sample store after the thread \<^verbatim>\<open>tC\<close> is merged into \<^verbatim>\<open>tB\<close> at time 100000.\<close>

definition ex_merged :: Store where
  "ex_merged = \<lparr> threads = [ex_threadB\<lparr> updated_at := 100000 \<rparr>,
                             ex_threadC\<lparr> state := Superseded,
                                         merged_into_thread_id := Some ''tB'',
                                         superseded_at := Some 100000, updated_at := 100000 \<rparr>],
                  messages = [ex_msg ''m1'' 40000 ''tB'', ex_msg ''m2'' 30000 ''tB'',
                              ex_msg ''m3'' 20000 ''tB''] \<rparr>"

text \<open>A store in which the sample message has been claimed.\<close>

definition ex_store_claimed :: Store where
  "ex_store_claimed = \<lparr> threads = [ex_threadB], messages = [ex_pending_msg] \<rparr>"

definition ex_assign_B :: AssignmentDecision where
  "ex_assign_B = \<lparr> action = Assign, threadId = Some ''tB'', title = None,
                    confidence = Some 1, reason = ''Heuristic token overlap matched an existing thread.'' \<rparr>"

text \<open>
  A run of the engine: a first message is posted and becomes the thread \<^verbatim>\<open>tD\<close>,
  the thread ages until it is archived, a second message is posted, and it is
  processed with the archived thread offered as revival candidate.
\<close>

definition ex_posted :: Store where
  "ex_posted = \<lparr> threads = [],
                  messages = [\<lparr> id_m = ''m0'', created_at_m = 10, author_m = ''ann'',
                                content_m = ''deploy pipeline broken'', thread_id = None,
                                assignment_status = Pending, assignment_note = None \<rparr>] \<rparr>"

definition ex_threaded :: Store where
  "ex_threaded = snd (processSinglePendingMessage ai_off (Some []) (Some []) ''tD'' 20 ex_posted)"

definition ex_aged :: Store where
  "ex_aged = lifecycleTick ex_cfg 400000000000 400000000000 ex_threaded"

definition ex_queued :: Store where
  "ex_queued = projr (postMessage ''ann'' ''the deploy pipeline is still broken'' ''m1''
                        450000000000 ex_aged)"

definition ex_D_row :: ArchivedCandidate where
  "ex_D_row = \<lparr> id_a = ''tD'', title_a = ''Deploy pipeline broken'',
                 recent_excerpt_a = ''deploy pipeline broken'' \<rparr>"

definition ex_revived :: Store where
  "ex_revived = snd (processSinglePendingMessage ai_off (Some []) (Some [ex_D_row]) ''tE''
                       500000000000 ex_queued)"

text \<open>The second message of the run processed while the candidate query fails.\<close>

definition ex_query_failed :: Store where
  "ex_query_failed = snd (processSinglePendingMessage ai_off None None ''tE''
                            500000000000 ex_queued)"

text \<open>A store with one active thread whose last message is 40 milliseconds after the epoch.\<close>

definition ex_idle :: Store where
  "ex_idle = \<lparr> threads = [ex_threadB], messages = [ex_msg ''m1'' 40000 ''tB''] \<rparr>"

text \<open>
  A provider that is switched on and answers every call: it assigns the
  message \<^verbatim>\<open>deploy ping\<close> to the thread \<^verbatim>\<open>tS\<close> and opens a new thread for any
  other message, names the first archived thread offered as the one a new
  thread revives, and agrees to every merge with the ids in the order given.
\<close>

definition ai_run :: AIDecider where
  "ai_run = \<lparr> enabled = True,
     decideAssignment = (\<lambda>m cs.
        if content_ai m = ''deploy ping''
        then Some \<lparr> action = Assign, threadId = Some ''tS'', title = None,
                    confidence = Some 0.9, reason = ''same incident'' \<rparr>
        else Some \<lparr> action = Create, threadId = None, title = None,
                    confidence = Some 0.9, reason = ''new topic'' \<rparr>),
     decideRevivalLink = (\<lambda>m archived.
        case archived of
          [] \<Rightarrow> Some \<lparr> archivedThreadId = None, confidence_r = 0 \<rparr>
        | first # others \<Rightarrow> Some \<lparr> archivedThreadId = Some (id_a first), confidence_r = 0.9 \<rparr>),
     decideMerge = (\<lambda>a b.
        Some \<lparr> shouldMerge_m = True, sourceThreadId_m = id_c a, targetThreadId_m = id_c b,
               confidence_m = 0.9, reason_m = ''same incident'' \<rparr>) \<rparr>"

text \<open>
  A run of the engine in which a merge tick commits on rows it read earlier.
  Times are microseconds after the start of the engine; 72 hours are
  259200000000. The lifecycle ticks shown are those ticks of the ten second
  timer at which some thread has passed a threshold.

  Two messages are posted and become the threads \<^verbatim>\<open>tS\<close> and \<^verbatim>\<open>tT\<close>
  (\<open>ex_run1\<close> to \<open>ex_run4\<close>), and both threads cool (\<open>ex_run5\<close>). Eight
  seconds after the seventy-second hour a third message is posted
  (\<open>ex_run6\<close>). On this store a merge tick reads its candidates, the rows
  \<open>ex_T_cooling\<close> and \<open>ex_S_cooling\<close>, and waits for the provider. Meanwhile
  the third message is assigned to \<^verbatim>\<open>tS\<close>, which becomes active again
  (\<open>ex_run7\<close>), the lifecycle tick archives \<^verbatim>\<open>tT\<close> (\<open>ex_run8\<close>), and a
  fourth message is posted and opens the thread \<^verbatim>\<open>tE\<close>, which revives
  \<^verbatim>\<open>tT\<close> (\<open>ex_run9\<close>, \<open>ex_run10\<close>). Then the merge tick commits with the rows
  it read (\<open>ex_run11\<close>). Lifecycle ticks cool \<^verbatim>\<open>tT\<close> and \<^verbatim>\<open>tE\<close> and archive
  \<^verbatim>\<open>tT\<close> (\<open>ex_run12\<close> to \<open>ex_run14\<close>), and a fifth message is posted and
  opens the thread \<^verbatim>\<open>tF\<close> (\<open>ex_run15\<close>, \<open>ex_run16\<close>). Every pass of the
  assignment loop is given the rows that its two queries return on the store
  it runs on.
\<close>

definition ex_S_active :: ThreadCandidate where
  "ex_S_active = \<lparr> id_c = ''tS'', title_c = ''Deploy pipeline broken'', state_c = Active,
                    last_message_at_c = Some 10000, recent_excerpt = ''deploy pipeline broken'' \<rparr>"

definition ex_S_cooling :: ThreadCandidate where
  "ex_S_cooling = \<lparr> id_c = ''tS'', title_c = ''Deploy pipeline broken'', state_c = Cooling,
                     last_message_at_c = Some 10000, recent_excerpt = ''deploy pipeline broken'' \<rparr>"

definition ex_T_cooling :: ThreadCandidate where
  "ex_T_cooling = \<lparr> id_c = ''tT'', title_c = ''Pipeline deploy is broken on staging'',
                     state_c = Cooling, last_message_at_c = Some 2000000,
                     recent_excerpt = ''pipeline deploy is broken on staging'' \<rparr>"

definition ex_S_reopened :: ThreadCandidate where
  "ex_S_reopened = \<lparr> id_c = ''tS'', title_c = ''Deploy pipeline broken'', state_c = Active,
                      last_message_at_c = Some 259208000000,
                      recent_excerpt = ''deploy ping'' @ [CHR 0x0A] @ ''deploy pipeline broken'' \<rparr>"

definition ex_E_cooling :: ThreadCandidate where
  "ex_E_cooling = \<lparr> id_c = ''tE'', title_c = ''Staging deploy pipeline broken'',
                     state_c = Cooling, last_message_at_c = Some 259211000000,
                     recent_excerpt = ''staging deploy pipeline broken'' \<rparr>"

definition ex_T_archived :: ArchivedCandidate where
  "ex_T_archived = \<lparr> id_a = ''tT'', title_a = ''Pipeline deploy is broken on staging'',
                      recent_excerpt_a = ''pipeline deploy is broken on staging'' \<rparr>"

definition ex_T_archived_again :: ArchivedCandidate where
  "ex_T_archived_again =
     \<lparr> id_a = ''tT'', title_a = ''Pipeline deploy is broken on staging'',
       recent_excerpt_a = ''deploy ping'' @ [CHR 0x0A] @ ''pipeline deploy is broken on staging''
                            @ [CHR 0x0A] @ ''deploy pipeline broken'' \<rparr>"

text \<open>The pair that the merge tick finds among the rows it read.\<close>

definition ex_TS_pair :: MergePair where
  "ex_TS_pair = \<lparr> source = ex_T_cooling, target = ex_S_cooling, score = 3 / 4 \<rparr>"

definition ex_run1 :: Store where
  "ex_run1 = projr (postMessage ''ann'' ''deploy pipeline broken'' ''m0'' 10000
                      \<lparr> threads = [], messages = [] \<rparr>)"

definition ex_run2 :: Store where
  "ex_run2 = snd (processSinglePendingMessage ai_run
                    (Some (fetchActiveThreadCandidates 15 ex_run1))
                    (Some (fetchArchivedCandidates 20 ex_run1)) ''tS'' 1600000 ex_run1)"

definition ex_run3 :: Store where
  "ex_run3 = projr (postMessage ''bob'' ''pipeline deploy is broken on staging'' ''m1'' 2000000
                      ex_run2)"

definition ex_run4 :: Store where
  "ex_run4 = snd (processSinglePendingMessage ai_run
                    (Some (fetchActiveThreadCandidates 15 ex_run3))
                    (Some (fetchArchivedCandidates 20 ex_run3)) ''tT'' 3100000 ex_run3)"

text \<open>The messages of the run as they stand once assigned, each in the thread given.\<close>

definition ex_m0 :: "string \<Rightarrow> MessageRecord" where
  "ex_m0 tid = \<lparr> id_m = ''m0'', created_at_m = 10000, author_m = ''ann'',
                  content_m = ''deploy pipeline broken'', thread_id = Some tid,
                  assignment_status = Assigned,
                  assignment_note = Some ''First thread in the system.'' \<rparr>"

definition ex_m1 :: MessageRecord where
  "ex_m1 = \<lparr> id_m = ''m1'', created_at_m = 2000000, author_m = ''bob'',
              content_m = ''pipeline deploy is broken on staging'', thread_id = Some ''tT'',
              assignment_status = Assigned, assignment_note = Some ''new topic'' \<rparr>"

definition ex_m2 :: "string \<Rightarrow> MessageRecord" where
  "ex_m2 tid = \<lparr> id_m = ''m2'', created_at_m = 259208000000, author_m = ''ann'',
                  content_m = ''deploy ping'', thread_id = Some tid,
                  assignment_status = Assigned, assignment_note = Some ''same incident'' \<rparr>"

definition ex_m3 :: MessageRecord where
  "ex_m3 = \<lparr> id_m = ''m3'', created_at_m = 259211000000, author_m = ''bob'',
              content_m = ''staging deploy pipeline broken'', thread_id = Some ''tE'',
              assignment_status = Assigned, assignment_note = Some ''new topic'' \<rparr>"

text \<open>
  The store after the lifecycle tick at 1810 seconds, written out: it is
  \<open>lifecycleTick ex_cfg 1810000000 1810000000 ex_run4\<close>.
\<close>

definition ex_run5 :: Store where
  "ex_run5 =
     \<lparr> threads =
         [\<lparr> id_t = ''tS'', title_t = ''Deploy pipeline broken'', state = Cooling,
             created_at_t = 1600000, updated_at = 1810000000, last_message_at = Some 10000,
             archived_at = None, superseded_at = None, revives_thread_id = None,
             continued_in_thread_id = None, merged_into_thread_id = None \<rparr>,
          \<lparr> id_t = ''tT'', title_t = ''Pipeline deploy is broken on staging'', state = Cooling,
             created_at_t = 3100000, updated_at = 1810000000, last_message_at = Some 2000000,
             archived_at = None, superseded_at = None, revives_thread_id = None,
             continued_in_thread_id = None, merged_into_thread_id = None \<rparr>],
       messages = [ex_m0 ''tS'', ex_m1] \<rparr>"

definition ex_run6 :: Store where
  "ex_run6 = projr (postMessage ''ann'' ''deploy ping'' ''m2'' 259208000000 ex_run5)"

definition ex_run7 :: Store where
  "ex_run7 = snd (processSinglePendingMessage ai_run
                    (Some (fetchActiveThreadCandidates 15 ex_run6))
                    (Some (fetchArchivedCandidates 20 ex_run6)) ''tU'' 259209400000 ex_run6)"

definition ex_run8 :: Store where
  "ex_run8 = lifecycleTick ex_cfg 259210000000 259210000000 ex_run7"

definition ex_run9 :: Store where
  "ex_run9 = projr (postMessage ''bob'' ''staging deploy pipeline broken'' ''m3'' 259211000000
                      ex_run8)"

text \<open>
  The store after the fourth message has opened the thread \<^verbatim>\<open>tE\<close>, written
  out: it is the result of the pass of \<^verbatim>\<open>processSinglePendingMessage\<close> at
  259213 seconds on \<open>ex_run9\<close>.
\<close>

definition ex_run10 :: Store where
  "ex_run10 =
     \<lparr> threads =
         [\<lparr> id_t = ''tS'', title_t = ''Deploy pipeline broken'', state = Active,
             created_at_t = 1600000, updated_at = 259209400000,
             last_message_at = Some 259208000000,
             archived_at = None, superseded_at = None, revives_thread_id = None,
             continued_in_thread_id = None, merged_into_thread_id = None \<rparr>,
          \<lparr> id_t = ''tT'', title_t = ''Pipeline deploy is broken on staging'',
             state = Superseded, created_at_t = 3100000, updated_at = 259213000000,
             last_message_at = Some 2000000,
             archived_at = Some 259210000000, superseded_at = Some 259213000000,
             revives_thread_id = None, continued_in_thread_id = Some ''tE'',
             merged_into_thread_id = None \<rparr>,
          \<lparr> id_t = ''tE'', title_t = ''Staging deploy pipeline broken'', state = Active,
             created_at_t = 259213000000, updated_at = 259213000000,
             last_message_at = Some 259211000000,
             archived_at = None, superseded_at = None, revives_thread_id = Some ''tT'',
             continued_in_thread_id = None, merged_into_thread_id = None \<rparr>],
       messages = [ex_m0 ''tS'', ex_m1, ex_m2 ''tS'', ex_m3] \<rparr>"

definition ex_run11 :: Store where
  "ex_run11 = mergeTick ai_run (Some (fetchMergeCandidates ex_run6)) 259214000000 ex_run10"

definition ex_run12 :: Store where
  "ex_run12 = lifecycleTick ex_cfg 261010000000 261010000000 ex_run11"

definition ex_run13 :: Store where
  "ex_run13 = lifecycleTick ex_cfg 261020000000 261020000000 ex_run12"

text \<open>
  The store after the lifecycle tick at 518410 seconds, written out: it is
  \<open>lifecycleTick ex_cfg 518410000000 518410000000 ex_run13\<close>.
\<close>

definition ex_run14 :: Store where
  "ex_run14 =
     \<lparr> threads =
         [\<lparr> id_t = ''tS'', title_t = ''Deploy pipeline broken'', state = Superseded,
             created_at_t = 1600000, updated_at = 259214000000,
             last_message_at = Some 259208000000,
             archived_at = None, superseded_at = Some 259214000000,
             revives_thread_id = None, continued_in_thread_id = None,
             merged_into_thread_id = Some ''tT'' \<rparr>,
          \<lparr> id_t = ''tT'', title_t = ''Pipeline deploy is broken on staging'',
             state = Archived, created_at_t = 3100000, updated_at = 518410000000,
             last_message_at = Some 259208000000,
             archived_at = Some 259210000000, superseded_at = Some 259213000000,
             revives_thread_id = None, continued_in_thread_id = Some ''tE'',
             merged_into_thread_id = None \<rparr>,
          \<lparr> id_t = ''tE'', title_t = ''Staging deploy pipeline broken'', state = Cooling,
             created_at_t = 259213000000, updated_at = 261020000000,
             last_message_at = Some 259211000000,
             archived_at = None, superseded_at = None, revives_thread_id = Some ''tT'',
             continued_in_thread_id = None, merged_into_thread_id = None \<rparr>],
       messages = [ex_m0 ''tT'', ex_m1, ex_m2 ''tT'', ex_m3] \<rparr>"

definition ex_run15 :: Store where
  "ex_run15 = projr (postMessage ''ann'' ''deploy pipeline on staging broken again'' ''m4''
                       518411000000 ex_run14)"

definition ex_run16 :: Store where
  "ex_run16 = snd (processSinglePendingMessage ai_run
                     (Some (fetchActiveThreadCandidates 15 ex_run15))
                     (Some (fetchArchivedCandidates 20 ex_run15)) ''tF'' 518413000000 ex_run15)"

section \<open>Verified properties\<close>

subsection \<open>Heuristic assignment\<close>

text \<open>The scoring loop ends at the first element of maximal score.\<close>

lemma keep_better_foldl:
  fixes f :: "'a \<Rightarrow> string" and g :: "'a \<Rightarrow> real"
  assumes "xs \<noteq> []"
  shows "\<exists>i<length xs.
           foldl (\<lambda>best c. keep_better best (f c) (g c)) None xs = Some (f (xs ! i), g (xs ! i)) \<and>
           (\<forall>j<length xs. g (xs ! j) \<le> g (xs ! i)) \<and>
           (\<forall>j<i. g (xs ! j) < g (xs ! i))"
  using assms
proof (induction xs rule: rev_induct)
  case Nil
  then show ?case by simp
next
  case (snoc x xs)
  show ?case
  proof (cases "xs = []")
    case True
    then show ?thesis by (simp add: keep_better_def)
  next
    case False
    from snoc.IH [OF False] obtain i where i: "i < length xs"
      and fo: "foldl (\<lambda>best c. keep_better best (f c) (g c)) None xs = Some (f (xs ! i), g (xs ! i))"
      and mx: "\<forall>j<length xs. g (xs ! j) \<le> g (xs ! i)"
      and fst: "\<forall>j<i. g (xs ! j) < g (xs ! i)"
      by blast
    show ?thesis
    proof (cases "g x > g (xs ! i)")
      case True
      have "foldl (\<lambda>best c. keep_better best (f c) (g c)) None (xs @ [x]) = Some (f x, g x)"
        using fo True by (simp add: keep_better_def)
      moreover have "\<forall>j<length (xs @ [x]). g ((xs @ [x]) ! j) \<le> g x"
        using mx True by (auto simp: nth_append less_Suc_eq intro: order_trans less_imp_le)
      moreover have "\<forall>j<length xs. g ((xs @ [x]) ! j) < g x"
        using mx True by (auto simp: nth_append intro: le_less_trans)
      ultimately show ?thesis
        by (intro exI [of _ "length xs"]) simp
    next
      case False
      have "foldl (\<lambda>best c. keep_better best (f c) (g c)) None (xs @ [x]) = Some (f (xs ! i), g (xs ! i))"
        using fo False by (simp add: keep_better_def)
      moreover have "\<forall>j<length (xs @ [x]). g ((xs @ [x]) ! j) \<le> g (xs ! i)"
        using mx False by (auto simp: nth_append less_Suc_eq)
      moreover have "\<forall>j<i. g ((xs @ [x]) ! j) < g (xs ! i)"
        using fst i by (auto simp: nth_append)
      ultimately show ?thesis
        using i by (intro exI [of _ i]) (simp add: nth_append)
    qed
  qed
qed

text \<open>
  Claim C2. For a non-empty candidate list \<^verbatim>\<open>fallbackAssignment\<close> picks the first
  candidate of maximal Jaccard score: no candidate scores higher and every
  earlier candidate scores strictly lower. When that score is at least 0.26
  the result assigns to this candidate with confidence \<open>min 1 (score + 0.25)\<close>;
  otherwise it creates a thread with the fallback title and confidence 0.62.
  Being a function of its three arguments, the result is determined by them.
\<close>

theorem fallbackAssignment_first_maximum:
  assumes "candidates \<noteq> []"
  shows "\<exists>i<length candidates.
           (\<forall>j<length candidates.
              candidateScore pending (candidates ! j) \<le> candidateScore pending (candidates ! i)) \<and>
           (\<forall>j<i. candidateScore pending (candidates ! j) < candidateScore pending (candidates ! i)) \<and>
           fallbackAssignment pending candidates defaultTitle =
             (if candidateScore pending (candidates ! i) \<ge> 0.26
              then \<lparr> action = Assign, threadId = Some (id_c (candidates ! i)), title = None,
                     confidence = Some (min 1 (candidateScore pending (candidates ! i) + 0.25)),
                     reason = ''Heuristic token overlap matched an existing thread.'' \<rparr>
              else \<lparr> action = Create, threadId = None, title = Some defaultTitle,
                     confidence = Some 0.62,
                     reason = ''No strong overlap with existing active threads.'' \<rparr>)"
proof -
  from keep_better_foldl [OF assms, of id_c "candidateScore pending"]
  obtain i where i: "i < length candidates"
    and fo: "foldl (\<lambda>best c. keep_better best (id_c c) (candidateScore pending c)) None candidates
               = Some (id_c (candidates ! i), candidateScore pending (candidates ! i))"
    and mx: "\<forall>j<length candidates.
               candidateScore pending (candidates ! j) \<le> candidateScore pending (candidates ! i)"
    and fs: "\<forall>j<i. candidateScore pending (candidates ! j) < candidateScore pending (candidates ! i)"
    by blast
  have "fallbackAssignment pending candidates defaultTitle =
          (if candidateScore pending (candidates ! i) \<ge> 0.26
           then \<lparr> action = Assign, threadId = Some (id_c (candidates ! i)), title = None,
                  confidence = Some (min 1 (candidateScore pending (candidates ! i) + 0.25)),
                  reason = ''Heuristic token overlap matched an existing thread.'' \<rparr>
           else \<lparr> action = Create, threadId = None, title = Some defaultTitle,
                  confidence = Some 0.62,
                  reason = ''No strong overlap with existing active threads.'' \<rparr>)"
    using fo unfolding fallbackAssignment_def candidateScore_def scoreSimilarity_def Let_def
    by simp
  with i mx fs show ?thesis by blast
qed

text \<open>The two sample candidates share no token and three of four tokens with the message.\<close>

lemma ex_scores:
  "candidateScore ex_pending ex_lunch = 0"
  "candidateScore ex_pending ex_deploy = 3 / 4"
  by code_simp+

theorem fallbackAssignment_first_maximum_witness:
  "[ex_lunch, ex_deploy] \<noteq> [] \<and>
   fallbackAssignment ex_pending [ex_lunch, ex_deploy] ''T'' =
     \<lparr> action = Assign, threadId = Some ''t2'', title = None, confidence = Some 1,
       reason = ''Heuristic token overlap matched an existing thread.'' \<rparr>"
proof -
  let ?cs = "[ex_lunch, ex_deploy]"
  have ne: "?cs \<noteq> []" by simp
  from fallbackAssignment_first_maximum [OF ne, of ex_pending "''T''"]
  obtain i where i: "i < length ?cs"
    and mx: "\<forall>j<length ?cs. candidateScore ex_pending (?cs ! j)
                     \<le> candidateScore ex_pending (?cs ! i)"
    and r: "fallbackAssignment ex_pending ?cs ''T'' =
             (if candidateScore ex_pending (?cs ! i) \<ge> 0.26
              then \<lparr> action = Assign, threadId = Some (id_c (?cs ! i)), title = None,
                     confidence = Some (min 1 (candidateScore ex_pending (?cs ! i) + 0.25)),
                     reason = ''Heuristic token overlap matched an existing thread.'' \<rparr>
              else \<lparr> action = Create, threadId = None, title = Some ''T'',
                     confidence = Some 0.62,
                     reason = ''No strong overlap with existing active threads.'' \<rparr>)"
    by blast
  have "i = 1"
  proof (rule ccontr)
    assume "i \<noteq> 1"
    with i have "i = 0" by simp
    moreover from mx [rule_format, of 1]
    have "candidateScore ex_pending (?cs ! 1) \<le> candidateScore ex_pending (?cs ! i)"
      by simp
    ultimately show False by (simp add: ex_scores)
  qed
  moreover have "id_c ex_deploy = ''t2''" by (simp add: ex_deploy_def)
  ultimately have "fallbackAssignment ex_pending ?cs ''T'' =
     \<lparr> action = Assign, threadId = Some ''t2'', title = None, confidence = Some 1,
       reason = ''Heuristic token overlap matched an existing thread.'' \<rparr>"
    using r by (simp add: ex_scores)
  with ne show ?thesis by simp
qed

text \<open>
  Claim C3. \<^verbatim>\<open>normalizeAssignmentDecision\<close> returns the provider's decision as it
  is when the decision is an accepted assignment, and in every other case a
  create decision with the provider's title or else the fallback title, the
  provider's confidence or else 0.5, and the provider's reason or else the
  fixed text. The result is the given assign decision exactly when the
  assignment is accepted.
\<close>

theorem normalizeAssignmentDecision_accepts:
  "(acceptedAssign d cs \<longrightarrow> normalizeAssignmentDecision d cs t = d) \<and>
   (\<not> acceptedAssign d cs \<longrightarrow>
      normalizeAssignmentDecision d cs t =
        \<lparr> action = Create, threadId = None,
          title = Some (case title d of None \<Rightarrow> t | Some x \<Rightarrow> x),
          confidence = Some (case confidence d of None \<Rightarrow> 0.5 | Some c \<Rightarrow> c),
          reason = (if reason d = [] then ''No clear active thread match.'' else reason d) \<rparr>) \<and>
   ((normalizeAssignmentDecision d cs t = d \<and> action d = Assign) = acceptedAssign d cs)"
proof -
  have cond: "(action d = Assign \<and> truthy (threadId d) \<and>
               (case threadId d of None \<Rightarrow> False | Some i \<Rightarrow> i \<in> set (map id_c cs)) \<and>
               (case confidence d of None \<Rightarrow> False | Some c \<Rightarrow> c \<ge> 0.45))
              = acceptedAssign d cs"
    by (auto simp: acceptedAssign_def truthy_def split: option.splits)
  have yes: "acceptedAssign d cs \<Longrightarrow> normalizeAssignmentDecision d cs t = d"
    unfolding normalizeAssignmentDecision_def Let_def cond by simp
  have no: "\<not> acceptedAssign d cs \<Longrightarrow>
      normalizeAssignmentDecision d cs t =
        \<lparr> action = Create, threadId = None,
          title = Some (case title d of None \<Rightarrow> t | Some x \<Rightarrow> x),
          confidence = Some (case confidence d of None \<Rightarrow> 0.5 | Some c \<Rightarrow> c),
          reason = (if reason d = [] then ''No clear active thread match.'' else reason d) \<rparr>"
    unfolding normalizeAssignmentDecision_def Let_def cond by simp
  have iff: "(normalizeAssignmentDecision d cs t = d \<and> action d = Assign) = acceptedAssign d cs"
  proof (cases "acceptedAssign d cs")
    case True
    then show ?thesis using yes by (simp add: acceptedAssign_def)
  next
    case False
    have "action (normalizeAssignmentDecision d cs t) = Create"
      by (simp add: no [OF False])
    then have "\<not> (normalizeAssignmentDecision d cs t = d \<and> action d = Assign)"
      by auto
    with False show ?thesis by simp
  qed
  from yes no iff show ?thesis by blast
qed

theorem normalizeAssignmentDecision_accepts_witness:
  "acceptedAssign ex_ai_assign [ex_lunch, ex_deploy] \<and>
   normalizeAssignmentDecision ex_ai_assign [ex_lunch, ex_deploy] ''T'' = ex_ai_assign \<and>
   \<not> acceptedAssign ex_ai_unsure [ex_lunch, ex_deploy] \<and>
   normalizeAssignmentDecision ex_ai_unsure [ex_lunch, ex_deploy] ''T'' =
     \<lparr> action = Create, threadId = None, title = Some ''T'', confidence = Some 0.3,
       reason = ''No clear active thread match.'' \<rparr>"
proof -
  have a: "acceptedAssign ex_ai_assign [ex_lunch, ex_deploy]"
    unfolding acceptedAssign_def ex_ai_assign_def ex_lunch_def ex_deploy_def
    by (intro conjI exI [of _ "''t2''"] exI [of _ "0.9"]) simp_all
  have b: "\<not> acceptedAssign ex_ai_unsure [ex_lunch, ex_deploy]"
    by (simp add: acceptedAssign_def ex_ai_unsure_def)
  show ?thesis
    using a b normalizeAssignmentDecision_accepts [of ex_ai_assign "[ex_lunch, ex_deploy]" "''T''"]
      normalizeAssignmentDecision_accepts [of ex_ai_unsure "[ex_lunch, ex_deploy]" "''T''"]
    by (simp add: ex_ai_unsure_def)
qed

subsection \<open>Merge decision\<close>

lemma mergeDecisionVars_ids:
  "mergeDecisionVars ai pair = (m, src, tgt) \<Longrightarrow>
     src \<in> {id_c (source pair), id_c (target pair)} \<and>
     tgt \<in> {id_c (source pair), id_c (target pair)} \<and> (m \<longrightarrow> src \<noteq> tgt)"
  by (auto simp: mergeDecisionVars_def Let_def split: if_splits option.splits prod.splits)

text \<open>A merge that goes ahead has two different threads of the selected pair.\<close>

lemma resolveMerge_ids:
  assumes "resolveMerge ai pair = Some (src, tgt)"
  shows "src \<noteq> tgt" and "src \<in> {id_c (source pair), id_c (target pair)}"
    and "tgt \<in> {id_c (source pair), id_c (target pair)}"
proof -
  obtain m a b where v: "mergeDecisionVars ai pair = (m, a, b)"
    by (cases "mergeDecisionVars ai pair") auto
  from mergeDecisionVars_ids [OF v] assms v
  show "src \<noteq> tgt" and "src \<in> {id_c (source pair), id_c (target pair)}"
    and "tgt \<in> {id_c (source pair), id_c (target pair)}"
    by (auto simp: resolveMerge_def split: if_splits)
qed

text \<open>
  Claim C4, as the specification states it, fails: a provider that answers
  and declines the merge is not replaced by the heuristic. For the sample pair
  of score 1 the heuristic would merge, and the tick does not.
\<close>

theorem mergeTick_heuristic_not_used_counterexample:
  "enabled (ai_merge ex_decline) \<and>
   decideMerge (ai_merge ex_decline) (source ex_pair) (target ex_pair) = Some ex_decline \<and>
   \<not> shouldMerge_m ex_decline \<and>
   mergeDecisionVars (ai_merge ex_decline) ex_pair \<noteq>
     (score ex_pair \<ge> 0.78, id_c (source ex_pair), id_c (target ex_pair))"
  by (simp add: mergeDecisionVars_def ai_merge_def ex_decline_def ex_pair_def ex_B_def ex_C_def)

text \<open>
  Claim C4, amended. When the provider is enabled and its call succeeds, the
  merge goes ahead exactly when the provider says to merge with confidence at
  least 0.6 and the resolved source and target differ; source and target are
  the provider's ids when both are ids of the selected pair, and the pair's
  ids as found otherwise. The heuristic test (pair score at least 0.78) decides
  only when the provider is disabled or its call fails.
\<close>

theorem mergeDecisionVars_provider_decides:
  "(enabled ai \<and> decideMerge ai (source pair) (target pair) = Some d \<longrightarrow>
      mergeDecisionVars ai pair =
        (let inPair = (sourceThreadId_m d \<in> {id_c (source pair), id_c (target pair)} \<and>
                       targetThreadId_m d \<in> {id_c (source pair), id_c (target pair)});
             src = (if inPair then sourceThreadId_m d else id_c (source pair));
             tgt = (if inPair then targetThreadId_m d else id_c (target pair))
         in (shouldMerge_m d \<and> confidence_m d \<ge> 0.6 \<and> src \<noteq> tgt, src, tgt))) \<and>
   (\<not> enabled ai \<or> decideMerge ai (source pair) (target pair) = None \<longrightarrow>
      mergeDecisionVars ai pair =
        (score pair \<ge> 0.78 \<and> id_c (source pair) \<noteq> id_c (target pair),
         id_c (source pair), id_c (target pair)))"
  by (auto simp: mergeDecisionVars_def Let_def)

theorem mergeDecisionVars_provider_decides_witness:
  "enabled (ai_merge ex_decline) \<and>
   decideMerge (ai_merge ex_decline) (source ex_pair) (target ex_pair) = Some ex_decline \<and>
   mergeDecisionVars (ai_merge ex_decline) ex_pair = (False, ''tB'', ''tC'') \<and>
   \<not> enabled ai_off \<and>
   mergeDecisionVars ai_off ex_pair = (True, ''tB'', ''tC'')"
  using mergeDecisionVars_provider_decides [of "ai_merge ex_decline" ex_pair ex_decline]
    mergeDecisionVars_provider_decides [of ai_off ex_pair]
  by (simp add: ai_merge_def ai_off_def ex_decline_def ex_pair_def ex_B_def ex_C_def)

text \<open>
  Claim C5 at a failing input. The two sample threads form the selected pair,
  the first with the more recent \<^verbatim>\<open>last_message_at\<close>. A provider that returns
  the two ids in the other order makes the tick supersede the more recently
  active thread \<^verbatim>\<open>tB\<close> and keep the older \<^verbatim>\<open>tC\<close>: the swap compares the
  timestamps of the pair as found, not those of the resolved ids. Without the
  provider the older thread \<^verbatim>\<open>tC\<close> is the source.
\<close>

theorem resolveMerge_reversed_ids_supersede_newer:
  "findMergePair [ex_B, ex_C] = Some ex_pair \<and>
   resolveMerge (ai_merge ex_reversed) ex_pair = Some (''tB'', ''tC'') \<and>
   last_message_at_c (source ex_pair) = Some 40000 \<and> id_c (source ex_pair) = ''tB'' \<and>
   last_message_at_c (target ex_pair) = Some 30000 \<and> id_c (target ex_pair) = ''tC'' \<and>
   resolveMerge ai_off ex_pair = Some (''tC'', ''tB'')"
proof -
  have "findMergePair [ex_B, ex_C] = Some ex_pair" by code_simp
  moreover have "resolveMerge (ai_merge ex_reversed) ex_pair = Some (''tB'', ''tC'')"
    by (simp add: resolveMerge_def mergeDecisionVars_def later_than_def js_number_def ai_merge_def
        ex_reversed_def ex_pair_def ex_B_def ex_C_def)
  moreover have "resolveMerge ai_off ex_pair = Some (''tC'', ''tB'')"
    by (simp add: resolveMerge_def mergeDecisionVars_def later_than_def js_number_def ai_off_def
        ex_pair_def ex_B_def ex_C_def)
  ultimately show ?thesis by (simp add: ex_pair_def ex_B_def ex_C_def)
qed

subsection \<open>Lifecycle\<close>

text \<open>
  Claim C8, as the specification states it, fails: a second pass reads the
  clock again, and a thread that the first pass cooled can have passed the
  archive threshold by then. The sample thread is active and its last message
  is five seconds short of 72 hours old when the first pass runs, so the pass
  cools it and does not archive it; the next pass of the ten second timer,
  with no write in between, archives it.
\<close>

theorem lifecycleTick_second_pass_archives_counterexample:
  "map (\<lambda>t. (id_t t, state t, last_message_at t)) (threads ex_idle)
     = [(''tB'', Active, Some 40000)] \<and>
   map (\<lambda>t. (id_t t, state t, last_message_at t))
       (threads (lifecycleTick ex_cfg 259195000000 259195000000 ex_idle))
     = [(''tB'', Cooling, Some 40000)] \<and>
   map (\<lambda>t. (id_t t, state t, last_message_at t))
       (threads (lifecycleTick ex_cfg 259205000000 259205000000
                   (lifecycleTick ex_cfg 259195000000 259195000000 ex_idle)))
     = [(''tB'', Archived, Some 40000)] \<and>
   messages (lifecycleTick ex_cfg 259195000000 259195000000 ex_idle) = messages ex_idle"
  by (simp add: lifecycleTick_def coolThreads_def archiveThreads_def ex_idle_def ex_cfg_def
      ex_threadB_def interval_mins_def interval_hours_def)

text \<open>
  A pass changes the rows that are due at its clock readings and no other row.
\<close>

lemma lifecycleTick_changes_due:
  assumes "i < length (threads s)"
  shows "if lifecycle_due cfg now1 now2 (threads s ! i)
         then state (threads (lifecycleTick cfg now1 now2 s) ! i) \<in> {Cooling, Archived} \<and>
              state (threads (lifecycleTick cfg now1 now2 s) ! i) \<noteq> state (threads s ! i)
         else threads (lifecycleTick cfg now1 now2 s) ! i = threads s ! i"
  using assms
  by (cases "last_message_at (threads s ! i)"; cases "state (threads s ! i)")
     (auto simp: lifecycleTick_def coolThreads_def archiveThreads_def lifecycle_due_def)

lemma lifecycleTick_leaves_none_due:
  assumes "i < length (threads s)" and "now3 \<le> now1" and "now4 \<le> now2"
  shows "\<not> lifecycle_due cfg now3 now4 (threads (lifecycleTick cfg now1 now2 s) ! i)"
  using assms
  by (cases "last_message_at (threads s ! i)"; cases "state (threads s ! i)")
     (auto simp: lifecycleTick_def coolThreads_def archiveThreads_def lifecycle_due_def)

lemma lifecycleTick_shape:
  "messages (lifecycleTick cfg now1 now2 s) = messages s"
  "length (threads (lifecycleTick cfg now1 now2 s)) = length (threads s)"
  by (simp_all add: lifecycleTick_def coolThreads_def archiveThreads_def)

text \<open>
  Claim C8, amended. Of two lifecycle passes in succession with no write in
  between, the second keeps the messages and the rows of the thread table, and
  changes a thread exactly when the thread, as the first pass left it, is due
  at the clock readings of the second: it is active and its last message is
  older than \<^verbatim>\<open>ACTIVE_TO_COOLING_MINUTES\<close>, or it is cooling and its last message
  is older than \<^verbatim>\<open>COOLING_TO_ARCHIVED_HOURS\<close>. Such a thread moves on to cooling
  or archived; every other thread is left as it is in every column. A thread
  that the first pass left archived or superseded is never due, and when the
  clock readings of the second pass are not later than those of the first no
  thread is due and the second pass leaves the whole store as it is.
\<close>

theorem lifecycleTick_second_pass:
  "messages (lifecycleTick cfg now3 now4 (lifecycleTick cfg now1 now2 s)) = messages s \<and>
   length (threads (lifecycleTick cfg now3 now4 (lifecycleTick cfg now1 now2 s)))
     = length (threads s) \<and>
   (\<forall>i<length (threads s).
      (if lifecycle_due cfg now3 now4 (threads (lifecycleTick cfg now1 now2 s) ! i)
       then state (threads (lifecycleTick cfg now3 now4 (lifecycleTick cfg now1 now2 s)) ! i)
              \<in> {Cooling, Archived} \<and>
            state (threads (lifecycleTick cfg now3 now4 (lifecycleTick cfg now1 now2 s)) ! i)
              \<noteq> state (threads (lifecycleTick cfg now1 now2 s) ! i)
       else threads (lifecycleTick cfg now3 now4 (lifecycleTick cfg now1 now2 s)) ! i
              = threads (lifecycleTick cfg now1 now2 s) ! i) \<and>
      (state (threads (lifecycleTick cfg now1 now2 s) ! i) \<in> {Archived, Superseded} \<longrightarrow>
         \<not> lifecycle_due cfg now3 now4 (threads (lifecycleTick cfg now1 now2 s) ! i)) \<and>
      (now3 \<le> now1 \<and> now4 \<le> now2 \<longrightarrow>
         \<not> lifecycle_due cfg now3 now4 (threads (lifecycleTick cfg now1 now2 s) ! i))) \<and>
   (now3 \<le> now1 \<and> now4 \<le> now2 \<longrightarrow>
      lifecycleTick cfg now3 now4 (lifecycleTick cfg now1 now2 s) = lifecycleTick cfg now1 now2 s)"
proof -
  let ?s1 = "lifecycleTick cfg now1 now2 s"
  let ?s2 = "lifecycleTick cfg now3 now4 ?s1"
  have m: "messages ?s2 = messages s" and l: "length (threads ?s2) = length (threads s)"
    and l1: "length (threads ?s1) = length (threads s)"
    by (simp_all add: lifecycleTick_shape)
  have rows: "(if lifecycle_due cfg now3 now4 (threads ?s1 ! i)
       then state (threads ?s2 ! i) \<in> {Cooling, Archived} \<and>
            state (threads ?s2 ! i) \<noteq> state (threads ?s1 ! i)
       else threads ?s2 ! i = threads ?s1 ! i) \<and>
      (state (threads ?s1 ! i) \<in> {Archived, Superseded} \<longrightarrow>
         \<not> lifecycle_due cfg now3 now4 (threads ?s1 ! i)) \<and>
      (now3 \<le> now1 \<and> now4 \<le> now2 \<longrightarrow> \<not> lifecycle_due cfg now3 now4 (threads ?s1 ! i))"
    if i: "i < length (threads s)" for i
  proof -
    have i1: "i < length (threads ?s1)" using i l1 by simp
    have a: "if lifecycle_due cfg now3 now4 (threads ?s1 ! i)
       then state (threads ?s2 ! i) \<in> {Cooling, Archived} \<and>
            state (threads ?s2 ! i) \<noteq> state (threads ?s1 ! i)
       else threads ?s2 ! i = threads ?s1 ! i"
      by (rule lifecycleTick_changes_due [OF i1])
    have b: "state (threads ?s1 ! i) \<in> {Archived, Superseded} \<longrightarrow>
         \<not> lifecycle_due cfg now3 now4 (threads ?s1 ! i)"
      by (auto simp: lifecycle_due_def split: option.splits)
    have c: "now3 \<le> now1 \<and> now4 \<le> now2 \<longrightarrow> \<not> lifecycle_due cfg now3 now4 (threads ?s1 ! i)"
      using lifecycleTick_leaves_none_due [OF i] by blast
    from a b c show ?thesis by (intro conjI)
  qed
  have same: "?s2 = ?s1" if le: "now3 \<le> now1 \<and> now4 \<le> now2"
  proof -
    have "threads ?s2 = threads ?s1"
    proof (rule nth_equalityI)
      show "length (threads ?s2) = length (threads ?s1)" using l l1 by simp
      fix i assume "i < length (threads ?s2)"
      then have i: "i < length (threads s)" using l by simp
      from rows [OF i] le show "threads ?s2 ! i = threads ?s1 ! i" by (simp split: if_splits)
    qed
    moreover have "messages ?s2 = messages ?s1" using m by (simp add: lifecycleTick_shape)
    ultimately show ?thesis by simp
  qed
  from m l rows same show ?thesis by blast
qed

theorem lifecycleTick_second_pass_witness:
  "state (threads (lifecycleTick ex_cfg 259195000000 259195000000 ex_idle) ! 0) = Cooling \<and>
   \<not> lifecycle_due ex_cfg 259195000000 259195000000
        (threads (lifecycleTick ex_cfg 259195000000 259195000000 ex_idle) ! 0) \<and>
   lifecycleTick ex_cfg 259195000000 259195000000
       (lifecycleTick ex_cfg 259195000000 259195000000 ex_idle)
     = lifecycleTick ex_cfg 259195000000 259195000000 ex_idle \<and>
   \<not> lifecycle_due ex_cfg 259198000000 259198000000
        (threads (lifecycleTick ex_cfg 259195000000 259195000000 ex_idle) ! 0) \<and>
   threads (lifecycleTick ex_cfg 259198000000 259198000000
              (lifecycleTick ex_cfg 259195000000 259195000000 ex_idle)) ! 0
     = threads (lifecycleTick ex_cfg 259195000000 259195000000 ex_idle) ! 0 \<and>
   lifecycle_due ex_cfg 259205000000 259205000000
        (threads (lifecycleTick ex_cfg 259195000000 259195000000 ex_idle) ! 0) \<and>
   state (threads (lifecycleTick ex_cfg 259205000000 259205000000
                     (lifecycleTick ex_cfg 259195000000 259195000000 ex_idle)) ! 0)
     \<noteq> Cooling"
proof -
  let ?s1 = "lifecycleTick ex_cfg 259195000000 259195000000 ex_idle"
  have i: "0 < length (threads ex_idle)" by (simp add: ex_idle_def)
  have r: "threads ?s1 ! 0 = ex_threadB\<lparr> state := Cooling, updated_at := 259195000000 \<rparr>"
    by (simp add: lifecycleTick_def coolThreads_def archiveThreads_def ex_idle_def ex_cfg_def
        ex_threadB_def interval_mins_def interval_hours_def)
  have st: "state (threads ?s1 ! 0) = Cooling" by (simp add: r)
  have d0: "\<not> lifecycle_due ex_cfg 259195000000 259195000000 (threads ?s1 ! 0)"
    and d1: "\<not> lifecycle_due ex_cfg 259198000000 259198000000 (threads ?s1 ! 0)"
    and d2: "lifecycle_due ex_cfg 259205000000 259205000000 (threads ?s1 ! 0)"
    unfolding r
    by (simp_all add: lifecycle_due_def ex_cfg_def ex_threadB_def interval_mins_def
        interval_hours_def)
  note t0 = lifecycleTick_second_pass [of ex_cfg 259195000000 259195000000 259195000000
      259195000000 ex_idle]
  note t1 = lifecycleTick_second_pass [of ex_cfg 259198000000 259198000000 259195000000
      259195000000 ex_idle]
  note t2 = lifecycleTick_second_pass [of ex_cfg 259205000000 259205000000 259195000000
      259195000000 ex_idle]
  from t0 have same: "lifecycleTick ex_cfg 259195000000 259195000000 ?s1 = ?s1" by simp
  from t1 have "\<forall>i<length (threads ex_idle).
      (if lifecycle_due ex_cfg 259198000000 259198000000 (threads ?s1 ! i)
       then state (threads (lifecycleTick ex_cfg 259198000000 259198000000 ?s1) ! i)
              \<in> {Cooling, Archived} \<and>
            state (threads (lifecycleTick ex_cfg 259198000000 259198000000 ?s1) ! i)
              \<noteq> state (threads ?s1 ! i)
       else threads (lifecycleTick ex_cfg 259198000000 259198000000 ?s1) ! i
              = threads ?s1 ! i) \<and>
      (state (threads ?s1 ! i) \<in> {Archived, Superseded} \<longrightarrow>
         \<not> lifecycle_due ex_cfg 259198000000 259198000000 (threads ?s1 ! i)) \<and>
      (259198000000 \<le> (259195000000::int) \<and> 259198000000 \<le> (259195000000::int) \<longrightarrow>
         \<not> lifecycle_due ex_cfg 259198000000 259198000000 (threads ?s1 ! i))"
    by (elim conjE)
  from this [rule_format, OF i] d1
  have keep: "threads (lifecycleTick ex_cfg 259198000000 259198000000 ?s1) ! 0 = threads ?s1 ! 0"
    by simp
  from t2 have "\<forall>i<length (threads ex_idle).
      (if lifecycle_due ex_cfg 259205000000 259205000000 (threads ?s1 ! i)
       then state (threads (lifecycleTick ex_cfg 259205000000 259205000000 ?s1) ! i)
              \<in> {Cooling, Archived} \<and>
            state (threads (lifecycleTick ex_cfg 259205000000 259205000000 ?s1) ! i)
              \<noteq> state (threads ?s1 ! i)
       else threads (lifecycleTick ex_cfg 259205000000 259205000000 ?s1) ! i
              = threads ?s1 ! i) \<and>
      (state (threads ?s1 ! i) \<in> {Archived, Superseded} \<longrightarrow>
         \<not> lifecycle_due ex_cfg 259205000000 259205000000 (threads ?s1 ! i)) \<and>
      (259205000000 \<le> (259195000000::int) \<and> 259205000000 \<le> (259195000000::int) \<longrightarrow>
         \<not> lifecycle_due ex_cfg 259205000000 259205000000 (threads ?s1 ! i))"
    by (elim conjE)
  from this [rule_format, OF i] d2 st
  have moved: "state (threads (lifecycleTick ex_cfg 259205000000 259205000000 ?s1) ! 0) \<noteq> Cooling"
    by simp
  from st d0 same d1 keep d2 moved show ?thesis by (intro conjI)
qed

subsection \<open>Revival source\<close>

lemma revivalAccepted_iff:
  "revivalAccepted d rows =
     (confidence_r d \<ge> 0.62 \<and>
      (\<exists>row\<in>set rows. archivedThreadId d = Some (id_a row) \<and> id_a row \<noteq> []))"
  by (auto simp: revivalAccepted_def truthy_def list_ex_iff split: option.splits)

lemma revivalHeuristic_first_maximum:
  assumes "rows \<noteq> []"
  shows "\<exists>i<length rows.
           (\<forall>j<length rows. archivedScore pending (rows ! j) \<le> archivedScore pending (rows ! i)) \<and>
           (\<forall>j<i. archivedScore pending (rows ! j) < archivedScore pending (rows ! i)) \<and>
           revivalHeuristic pending rows =
             (if archivedScore pending (rows ! i) \<ge> 0.31 then Some (id_a (rows ! i)) else None)"
proof -
  from keep_better_foldl [OF assms, of id_a "archivedScore pending"]
  obtain i where i: "i < length rows"
    and fo: "foldl (\<lambda>best c. keep_better best (id_a c) (archivedScore pending c)) None rows
               = Some (id_a (rows ! i), archivedScore pending (rows ! i))"
    and mx: "\<forall>j<length rows. archivedScore pending (rows ! j) \<le> archivedScore pending (rows ! i)"
    and fs: "\<forall>j<i. archivedScore pending (rows ! j) < archivedScore pending (rows ! i)"
    by blast
  have "revivalHeuristic pending rows =
          (if archivedScore pending (rows ! i) \<ge> 0.31 then Some (id_a (rows ! i)) else None)"
    using fo unfolding revivalHeuristic_def archivedScore_def scoreSimilarity_def Let_def
    by simp
  with i mx fs show ?thesis by blast
qed

lemma ex_revival_heuristic: "revivalHeuristic ex_pending [ex_D] = Some ''tD''"
  by code_simp

text \<open>
  Claim C9, as the specification states it, fails: the provider is enabled,
  its call succeeds and it names no archived thread, and the heuristic still
  chooses the archived sample thread as revival source.
\<close>

theorem findRevivalSource_declined_counterexample:
  "[ex_D] \<noteq> [] \<and> enabled (ai_revival ex_no_revival) \<and>
   decideRevivalLink (ai_revival ex_no_revival)
     \<lparr> author_ai = author_p ex_pending, content_ai = content_p ex_pending,
       created_at_ai = created_at_p ex_pending \<rparr> [ex_D] = Some ex_no_revival \<and>
   archivedThreadId ex_no_revival = None \<and>
   findRevivalSource (ai_revival ex_no_revival) [ex_D] ex_pending = Some ''tD''"
  by (simp add: findRevivalSource_def ai_revival_def revivalAccepted_def truthy_def
      ex_no_revival_def ex_revival_heuristic)

text \<open>
  Claim C9, amended. With at least one archived candidate: when the provider
  is enabled, its call succeeds and its answer is accepted (confidence at
  least 0.62 and the id of an offered candidate), that id is the revival
  source. In every other case (the provider is disabled, its call fails, or
  its answer is not accepted) the heuristic decides: the first archived
  candidate of maximal Jaccard score is the revival source when that score is
  at least 0.31, and there is none otherwise.
\<close>

theorem findRevivalSource_heuristic_unless_accepted:
  assumes "archived \<noteq> []"
  shows "(let answer = decideRevivalLink ai
                         \<lparr> author_ai = author_p pending, content_ai = content_p pending,
                           created_at_ai = created_at_p pending \<rparr> archived;
              accepted = (\<lambda>d. confidence_r d \<ge> 0.62 \<and>
                           (\<exists>row\<in>set archived. archivedThreadId d = Some (id_a row) \<and> id_a row \<noteq> []))
          in (\<forall>d. enabled ai \<and> answer = Some d \<and> accepted d \<longrightarrow>
                 findRevivalSource ai archived pending = archivedThreadId d) \<and>
             (\<not> enabled ai \<or> answer = None \<or> (\<exists>d. answer = Some d \<and> \<not> accepted d) \<longrightarrow>
                 (\<exists>i<length archived.
                    (\<forall>j<length archived.
                       archivedScore pending (archived ! j) \<le> archivedScore pending (archived ! i)) \<and>
                    (\<forall>j<i. archivedScore pending (archived ! j) < archivedScore pending (archived ! i)) \<and>
                    findRevivalSource ai archived pending =
                      (if archivedScore pending (archived ! i) \<ge> 0.31
                       then Some (id_a (archived ! i)) else None))))"
proof -
  have h: "\<not> enabled ai \<or>
           decideRevivalLink ai \<lparr> author_ai = author_p pending, content_ai = content_p pending,
                                  created_at_ai = created_at_p pending \<rparr> archived = None \<or>
           (\<exists>d. decideRevivalLink ai \<lparr> author_ai = author_p pending, content_ai = content_p pending,
                                  created_at_ai = created_at_p pending \<rparr> archived = Some d \<and>
                \<not> revivalAccepted d archived)
           \<Longrightarrow> findRevivalSource ai archived pending = revivalHeuristic pending archived"
    using assms by (auto simp: findRevivalSource_def)
  have a: "\<And>d. enabled ai \<Longrightarrow>
           decideRevivalLink ai \<lparr> author_ai = author_p pending, content_ai = content_p pending,
                                  created_at_ai = created_at_p pending \<rparr> archived = Some d \<Longrightarrow>
           revivalAccepted d archived
           \<Longrightarrow> findRevivalSource ai archived pending = archivedThreadId d"
    using assms by (simp add: findRevivalSource_def)
  show ?thesis
    unfolding Let_def
    using h a revivalHeuristic_first_maximum [OF assms, of pending]
    by (auto simp: revivalAccepted_iff)
qed

lemma ex_archived_score: "archivedScore ex_pending ex_D = 3 / 4"
  by code_simp

theorem findRevivalSource_heuristic_unless_accepted_witness:
  "[ex_D] \<noteq> [] \<and>
   findRevivalSource (ai_revival ex_revive_D) [ex_D] ex_pending = Some ''tD'' \<and>
   findRevivalSource ai_off [ex_D] ex_pending = Some ''tD''"
proof -
  have ne: "[ex_D] \<noteq> []" by simp
  have "findRevivalSource (ai_revival ex_revive_D) [ex_D] ex_pending = Some ''tD''"
    using findRevivalSource_heuristic_unless_accepted [OF ne, of "ai_revival ex_revive_D" ex_pending]
    by (simp add: ai_revival_def ex_revive_D_def ex_D_def)
  moreover have "findRevivalSource ai_off [ex_D] ex_pending = Some ''tD''"
  proof -
    have "id_a ex_D = ''tD''" by (simp add: ex_D_def)
    moreover have "\<not> enabled ai_off" by (simp add: ai_off_def)
    ultimately show ?thesis
      using findRevivalSource_heuristic_unless_accepted [OF ne, of ai_off ex_pending]
      by (simp add: ex_archived_score)
  qed
  ultimately show ?thesis using ne by simp
qed

subsection \<open>Merge transaction\<close>

lemma distinct_map_eq:
  "distinct (map f xs) \<Longrightarrow> x \<in> set xs \<Longrightarrow> y \<in> set xs \<Longrightarrow> f x = f y \<Longrightarrow> x = y"
  by (auto simp: distinct_map inj_on_def)

lemma max_created_at_Max:
  "max_created_at tid ms =
     (if \<forall>m\<in>set ms. thread_id m \<noteq> Some tid then None
      else Some (Max {created_at_m m | m. m \<in> set ms \<and> thread_id m = Some tid}))"
proof -
  have "set (map created_at_m (filter (\<lambda>m. thread_id m = Some tid) ms))
          = {created_at_m m | m. m \<in> set ms \<and> thread_id m = Some tid}"
    by auto
  then show ?thesis
    by (auto simp: max_created_at_def Let_def filter_empty_conv)
qed

text \<open>The three statements of the merge transaction, row by row.\<close>

lemma mergeTransaction_Some:
  assumes "mergeTransaction now src tgt s = Inr (Some s')"
  shows "filter (\<lambda>t. id_t t = src \<and> state t \<in> {Active, Cooling}) (threads s) \<noteq> []"
    and "tgt \<in> thread_ids s"
    and "messages s' = map (\<lambda>m. if thread_id m = Some src then m\<lparr> thread_id := Some tgt \<rparr> else m)
                         (messages s)"
    and "threads s' =
           map (\<lambda>t. if id_t t = tgt
                     then t\<lparr> state := Active,
                             last_message_at := max_created_at tgt (messages s'),
                             updated_at := now \<rparr>
                     else t)
             (map (\<lambda>t. if id_t t = src \<and> state t \<in> {Active, Cooling}
                        then t\<lparr> state := Superseded, merged_into_thread_id := Some tgt,
                                superseded_at := Some now, updated_at := now \<rparr>
                        else t) (threads s))"
  using assms
  by (auto simp: mergeTransaction_def Let_def split: if_splits)


text \<open>
  Claim C1. For a merge that the tick executes (the resolved source and target,
  a source row still active or cooling so that the transaction commits) on a
  store whose thread ids are unique: every message keeps its place and id and
  every message that pointed at the source points at the target; the source
  thread is superseded with \<^verbatim>\<open>merged_into_thread_id\<close> the target and
  \<^verbatim>\<open>superseded_at\<close> the time of the transaction; the target thread is active
  and its \<^verbatim>\<open>last_message_at\<close> is the greatest \<^verbatim>\<open>created_at\<close> of the messages
  now pointing at it (null when there is none).
\<close>

theorem mergeTransaction_commit:
  assumes r: "resolveMerge ai pair = Some (src, tgt)"
    and tx: "mergeTransaction now src tgt s = Inr (Some s')"
    and d: "distinct (map id_t (threads s))"
  shows "length (messages s') = length (messages s) \<and>
         (\<forall>i<length (messages s).
            id_m (messages s' ! i) = id_m (messages s ! i) \<and>
            (thread_id (messages s ! i) = Some src \<longrightarrow> thread_id (messages s' ! i) = Some tgt)) \<and>
         (\<exists>t\<in>set (threads s'). id_t t = src) \<and>
         (\<forall>t\<in>set (threads s'). id_t t = src \<longrightarrow>
            state t = Superseded \<and> merged_into_thread_id t = Some tgt \<and> superseded_at t = Some now) \<and>
         (\<exists>t\<in>set (threads s'). id_t t = tgt) \<and>
         (\<forall>t\<in>set (threads s'). id_t t = tgt \<longrightarrow>
            state t = Active \<and>
            last_message_at t =
              (if \<forall>m\<in>set (messages s'). thread_id m \<noteq> Some tgt then None
               else Some (Max {created_at_m m | m. m \<in> set (messages s') \<and> thread_id m = Some tgt})))"
proof -
  have ne: "src \<noteq> tgt" using resolveMerge_ids(1) [OF r] .
  note sh = mergeTransaction_Some [OF tx]
  from sh(1) obtain t0 where t0: "t0 \<in> set (threads s)" "id_t t0 = src" "state t0 \<in> {Active, Cooling}"
    by (auto simp: filter_empty_conv)
  have uniq: "\<And>t. t \<in> set (threads s) \<Longrightarrow> id_t t = src \<Longrightarrow> t = t0"
    using distinct_map_eq [OF d _ t0(1)] t0(2) by simp
  have msgs: "length (messages s') = length (messages s) \<and>
         (\<forall>i<length (messages s).
            id_m (messages s' ! i) = id_m (messages s ! i) \<and>
            (thread_id (messages s ! i) = Some src \<longrightarrow> thread_id (messages s' ! i) = Some tgt))"
    by (simp add: sh(3))
  let ?u = "\<lambda>t. if id_t t = src \<and> state t \<in> {Active, Cooling}
                 then t\<lparr> state := Superseded, merged_into_thread_id := Some tgt,
                         superseded_at := Some now, updated_at := now \<rparr>
                 else t"
  let ?v = "\<lambda>t. if id_t t = tgt
                 then t\<lparr> state := Active, last_message_at := max_created_at tgt (messages s'),
                         updated_at := now \<rparr>
                 else t"
  have th: "set (threads s') = (\<lambda>t. ?v (?u t)) ` set (threads s)"
    by (subst sh(4)) (simp add: image_image)
  have vu0: "id_t (?v (?u t0)) = src"
    using t0 ne by simp
  have src_ex: "\<exists>t\<in>set (threads s'). id_t t = src"
    unfolding th using t0(1) vu0 by blast
  have src_all: "\<forall>t\<in>set (threads s'). id_t t = src \<longrightarrow>
            state t = Superseded \<and> merged_into_thread_id t = Some tgt \<and> superseded_at t = Some now"
  proof (intro ballI impI)
    fix t assume "t \<in> set (threads s')" and i: "id_t t = src"
    then obtain x where x: "x \<in> set (threads s)" "t = ?v (?u x)"
      unfolding th by blast
    have idx: "id_t (?v (?u x)) = id_t x" by simp
    with i x have "id_t x = src" by simp
    with uniq x(1) have "x = t0" by simp
    with x(2) t0 ne show "state t = Superseded \<and> merged_into_thread_id t = Some tgt \<and>
        superseded_at t = Some now"
      by simp
  qed
  from sh(2) obtain t1 where t1: "t1 \<in> set (threads s)" "id_t t1 = tgt"
    by (auto simp: thread_ids_def)
  have "id_t (?v (?u t1)) = tgt" using t1 by simp
  then have tgt_ex: "\<exists>t\<in>set (threads s'). id_t t = tgt"
    unfolding th using t1(1) by blast
  have tgt_all: "\<forall>t\<in>set (threads s'). id_t t = tgt \<longrightarrow>
            state t = Active \<and> last_message_at t = max_created_at tgt (messages s')"
  proof (intro ballI impI)
    fix t assume "t \<in> set (threads s')" and i: "id_t t = tgt"
    then obtain x where x: "x \<in> set (threads s)" "t = ?v (?u x)"
      unfolding th by blast
    have idx: "id_t (?v (?u x)) = id_t x" by simp
    with i x have "id_t x = tgt" by simp
    with x(2) show "state t = Active \<and> last_message_at t = max_created_at tgt (messages s')"
      by simp
  qed
  have tgt_all': "\<forall>t\<in>set (threads s'). id_t t = tgt \<longrightarrow>
            state t = Active \<and>
            last_message_at t =
              (if \<forall>m\<in>set (messages s'). thread_id m \<noteq> Some tgt then None
               else Some (Max {created_at_m m | m. m \<in> set (messages s') \<and> thread_id m = Some tgt}))"
    using tgt_all unfolding max_created_at_Max [of tgt "messages s'"] .
  from msgs src_ex src_all tgt_ex tgt_all' show ?thesis
    by (intro conjI) (elim conjE, assumption)+
qed


lemma ex_merge_commits: "mergeTransaction 100000 ''tC'' ''tB'' ex_store = Inr (Some ex_merged)"
  by (simp add: mergeTransaction_def max_created_at_def thread_ids_def ex_store_def ex_merged_def
      ex_threadB_def ex_threadC_def ex_msg_def)

theorem mergeTransaction_commit_witness:
  "resolveMerge ai_off ex_pair = Some (''tC'', ''tB'') \<and>
   mergeTransaction 100000 ''tC'' ''tB'' ex_store = Inr (Some ex_merged) \<and>
   distinct (map id_t (threads ex_store)) \<and>
   state (threads ex_merged ! 1) = Superseded \<and>
   merged_into_thread_id (threads ex_merged ! 1) = Some ''tB'' \<and>
   superseded_at (threads ex_merged ! 1) = Some 100000 \<and>
   state (threads ex_merged ! 0) = Active \<and>
   map thread_id (messages ex_merged) = [Some ''tB'', Some ''tB'', Some ''tB''] \<and>
   map last_message_at (threads ex_merged) = [Some 40000, Some 30000]"
proof -
  have h1: "resolveMerge ai_off ex_pair = Some (''tC'', ''tB'')"
    by (simp add: resolveMerge_def mergeDecisionVars_def later_than_def js_number_def ai_off_def
        ex_pair_def ex_B_def ex_C_def)
  have h2: "mergeTransaction 100000 ''tC'' ''tB'' ex_store = Inr (Some ex_merged)"
    by (rule ex_merge_commits)
  have h3: "distinct (map id_t (threads ex_store))"
    by (simp add: ex_store_def ex_threadB_def ex_threadC_def)
  note c = mergeTransaction_commit [OF h1 h2 h3]
  have m0: "threads ex_merged ! 0 \<in> set (threads ex_merged)" "id_t (threads ex_merged ! 0) = ''tB''"
    and m1: "threads ex_merged ! 1 \<in> set (threads ex_merged)" "id_t (threads ex_merged ! 1) = ''tC''"
    by (simp_all add: ex_merged_def ex_threadB_def ex_threadC_def)
  from c have cs: "\<forall>t\<in>set (threads ex_merged). id_t t = ''tC'' \<longrightarrow>
      state t = Superseded \<and> merged_into_thread_id t = Some ''tB'' \<and> superseded_at t = Some 100000"
    by (elim conjE)
  from c have ct: "\<forall>t\<in>set (threads ex_merged). id_t t = ''tB'' \<longrightarrow>
            state t = Active \<and>
            last_message_at t =
              (if \<forall>m\<in>set (messages ex_merged). thread_id m \<noteq> Some ''tB'' then None
               else Some (Max {created_at_m m | m. m \<in> set (messages ex_merged) \<and> thread_id m = Some ''tB''}))"
    by (elim conjE)
  from cs [rule_format, OF m1] have s1: "state (threads ex_merged ! 1) = Superseded"
    "merged_into_thread_id (threads ex_merged ! 1) = Some ''tB''"
    "superseded_at (threads ex_merged ! 1) = Some 100000"
    by simp_all
  from ct [rule_format, OF m0] have s0: "state (threads ex_merged ! 0) = Active"
    by (elim conjE)
  have e: "map thread_id (messages ex_merged) = [Some ''tB'', Some ''tB'', Some ''tB''] \<and>
   map last_message_at (threads ex_merged) = [Some 40000, Some 30000]"
    by (simp add: ex_merged_def ex_msg_def ex_threadB_def ex_threadC_def)
  from h1 h2 h3 s1 s0 e show ?thesis by (intro conjI) (elim conjE, assumption)+
qed

subsection \<open>Applying an assignment\<close>

lemma ids_supersedeArchived [simp]:
  "map id_t (threads (snd (supersedeArchived rid tid now s))) = map id_t (threads s)"
  by (simp add: supersedeArchived_def Let_def o_def)

lemma ids_setRevives [simp]:
  "map id_t (threads (setRevives tid rid now s)) = map id_t (threads s)"
  by (simp add: setRevives_def o_def)

lemma ids_touchThread [simp]:
  "map id_t (threads (touchThread tid ts now s)) = map id_t (threads s)"
  by (simp add: touchThread_def o_def)

lemma threads_assignMessage:
  "assignMessage pid tid note s = Inr s' \<Longrightarrow> threads s' = threads s"
  by (auto simp: assignMessage_def split: if_splits)

lemma insertThread_Inr:
  "insertThread ttl l newId now s = Inr s1 \<Longrightarrow>
     newId \<notin> thread_ids s \<and> map id_t (threads s1) = map id_t (threads s) @ [newId] \<and>
     messages s1 = messages s"
  by (auto simp: insertThread_def split: if_splits)

lemma insertThread_Inl:
  "insertThread ttl l newId now s = Inl e \<Longrightarrow> e = UniqueViolation"
  by (auto simp: insertThread_def split: if_splits)

lemma messages_supersedeArchived [simp]:
  "messages (snd (supersedeArchived rid tid now s)) = messages s"
  by (simp add: supersedeArchived_def Let_def)

lemma messages_setRevives [simp]:
  "messages (setRevives tid rid now s) = messages s"
  by (simp add: setRevives_def)

text \<open>The three ways in which \<^verbatim>\<open>createThread\<close> ends.\<close>

lemma createThread_shape:
  assumes "createThread pending decision revivalSourceId newId now s = Inr (s1, tidOpt, created, link)"
  shows "\<exists>s0. insertThread
                (case title decision of None \<Rightarrow> buildTitle (content_p pending) | Some x \<Rightarrow> x)
                (created_at_p pending) newId now s = Inr s0 \<and>
              tidOpt = Some newId \<and> created = Some newId \<and>
              ((s1 = s0 \<and> link = None \<and> \<not> truthy revivalSourceId) \<or>
               (\<exists>rid. revivalSourceId = Some rid \<and> rid \<noteq> [] \<and>
                      fst (supersedeArchived rid newId now s0) = 0 \<and>
                      s1 = snd (supersedeArchived rid newId now s0) \<and> link = None) \<or>
               (\<exists>rid. revivalSourceId = Some rid \<and> rid \<noteq> [] \<and>
                      fst (supersedeArchived rid newId now s0) > 0 \<and>
                      s1 = setRevives newId rid now (snd (supersedeArchived rid newId now s0)) \<and>
                      link = Some (rid, newId)))"
  using assms
  by (auto simp: createThread_def truthy_def split_beta Let_def
      split: sum.splits option.splits if_splits)

lemma createThread_Inr:
  assumes "createThread pending decision revivalSourceId newId now s = Inr (s1, tidOpt, created, link)"
  shows "tidOpt = Some newId" and "created = Some newId" and "newId \<notin> thread_ids s"
    and "map id_t (threads s1) = map id_t (threads s) @ [newId]"
    and "messages s1 = messages s"
proof -
  from createThread_shape [OF assms] obtain s0 where
    i: "insertThread
             (case title decision of None \<Rightarrow> buildTitle (content_p pending) | Some x \<Rightarrow> x)
             (created_at_p pending) newId now s = Inr s0"
    and t: "tidOpt = Some newId" "created = Some newId"
    and sh: "s1 = s0 \<or>
             (\<exists>rid. s1 = snd (supersedeArchived rid newId now s0)) \<or>
             (\<exists>rid. s1 = setRevives newId rid now (snd (supersedeArchived rid newId now s0)))"
    by blast
  note k = insertThread_Inr [OF i]
  from t show "tidOpt = Some newId" and "created = Some newId" by simp_all
  from k show "newId \<notin> thread_ids s" by simp
  from sh k show "map id_t (threads s1) = map id_t (threads s) @ [newId]"
    by auto
  from sh k show "messages s1 = messages s"
    by auto
qed

lemma createThread_Inl:
  "createThread pending decision revivalSourceId newId now s = Inl e \<Longrightarrow> e = UniqueViolation"
  by (auto simp: createThread_def Let_def dest: insertThread_Inl
      split: sum.splits option.splits if_splits prod.splits)

text \<open>
  Claim C10. Given that the database hands out a non-empty id for a new
  thread, \<^verbatim>\<open>applyAssignment\<close> never raises its own error for a missing thread
  id; the only failures are those of the database. When it succeeds, the
  thread id of the result is the id of a newly inserted thread whenever the
  action is create or the decision carries no thread id (null, or the empty
  string that the code's test treats alike), and the thread id of the decision
  otherwise, in which case no thread is inserted.
\<close>

theorem applyAssignment_produces_thread_id:
  assumes n: "newId \<noteq> []"
  shows "applyAssignment pending decision revivalSourceId newId now s \<noteq> Inl NoThreadId \<and>
         (\<forall>e. applyAssignment pending decision revivalSourceId newId now s = Inl e \<longrightarrow>
               e = UniqueViolation \<or> e = ForeignKeyViolation) \<and>
         (\<forall>s' r. applyAssignment pending decision revivalSourceId newId now s = Inr (s', r) \<longrightarrow>
            (if action decision = Create \<or> threadId decision = None \<or> threadId decision = Some []
             then threadId_r r = newId \<and> createdThreadId r = Some newId \<and>
                  newId \<notin> thread_ids s \<and> thread_ids s' = insert newId (thread_ids s)
             else threadId decision = Some (threadId_r r) \<and> createdThreadId r = None \<and>
                  thread_ids s' = thread_ids s))"
proof (cases "action decision = Create \<or> \<not> truthy (threadId decision)")
  case True
  then have c: "action decision = Create \<or> threadId decision = None \<or> threadId decision = Some []"
    by (auto simp: truthy_def split: option.splits)
  show ?thesis
  proof (cases "createThread pending decision revivalSourceId newId now s")
    case (Inl e)
    with True have "applyAssignment pending decision revivalSourceId newId now s = Inl e"
      by (simp add: applyAssignment_def)
    moreover have "e = UniqueViolation" using createThread_Inl [OF Inl] .
    ultimately show ?thesis by simp
  next
    case (Inr x)
    obtain s1 tidOpt created link where x: "x = (s1, tidOpt, created, link)"
      by (cases x) auto
    note k = createThread_Inr [OF Inr [unfolded x]]
    have ap: "applyAssignment pending decision revivalSourceId newId now s =
           (case assignMessage (id_p pending) newId (reason decision) s1 of
              Inl e \<Rightarrow> Inl e
            | Inr s2 \<Rightarrow> Inr (touchThread newId (created_at_p pending) now s2,
                           \<lparr> threadId_r = newId, createdThreadId = Some newId, revivalLink = link \<rparr>))"
      using True Inr x k(1,2) n by (simp add: applyAssignment_def)
    have ids1: "thread_ids s1 = insert newId (thread_ids s)"
      using k(4) by (auto simp: thread_ids_def dest: arg_cong [where f = set])
    show ?thesis
    proof (cases "assignMessage (id_p pending) newId (reason decision) s1")
      case (Inl e)
      then have "e = ForeignKeyViolation"
        by (auto simp: assignMessage_def split: if_splits)
      with ap Inl show ?thesis by simp
    next
      case (Inr s2)
      have "thread_ids (touchThread newId (created_at_p pending) now s2) = thread_ids s1"
        using threads_assignMessage [OF Inr] by (simp add: thread_ids_def)
      with ap Inr c k(3) ids1 show ?thesis by simp
    qed
  qed
next
  case False
  then obtain tid where t: "threadId decision = Some tid" "tid \<noteq> []" "action decision \<noteq> Create"
    by (auto simp: truthy_def split: option.splits)
  have ap: "applyAssignment pending decision revivalSourceId newId now s =
           (case assignMessage (id_p pending) tid (reason decision) s of
              Inl e \<Rightarrow> Inl e
            | Inr s2 \<Rightarrow> Inr (touchThread tid (created_at_p pending) now s2,
                           \<lparr> threadId_r = tid, createdThreadId = None, revivalLink = None \<rparr>))"
    using False t by (simp add: applyAssignment_def)
  show ?thesis
  proof (cases "assignMessage (id_p pending) tid (reason decision) s")
    case (Inl e)
    then have "e = ForeignKeyViolation"
      by (auto simp: assignMessage_def split: if_splits)
    with ap Inl show ?thesis by simp
  next
    case (Inr s2)
    have "thread_ids (touchThread tid (created_at_p pending) now s2) = thread_ids s"
      using threads_assignMessage [OF Inr] by (simp add: thread_ids_def)
    with ap Inr t show ?thesis by simp
  qed
qed




theorem applyAssignment_produces_thread_id_witness:
  "''tE'' \<noteq> [] \<and>
   (\<exists>s' r. applyAssignment ex_pending ex_create None ''tE'' 100000 ex_store_claimed = Inr (s', r) \<and>
           threadId_r r = ''tE'' \<and> createdThreadId r = Some ''tE'' \<and>
           thread_ids s' = {''tE'', ''tB''}) \<and>
   (\<exists>s' r. applyAssignment ex_pending ex_assign_B None ''tE'' 100000 ex_store_claimed = Inr (s', r) \<and>
           threadId_r r = ''tB'' \<and> createdThreadId r = None \<and> thread_ids s' = {''tB''})"
proof -
  have n: "''tE'' \<noteq> []" by simp
  have ids: "thread_ids ex_store_claimed = {''tB''}"
    by (simp add: thread_ids_def ex_store_claimed_def ex_threadB_def)
  have "\<not> isl (applyAssignment ex_pending ex_create None ''tE'' 100000 ex_store_claimed)"
    by code_simp
  then obtain x1 where
    "applyAssignment ex_pending ex_create None ''tE'' 100000 ex_store_claimed = Inr x1"
    by (cases "applyAssignment ex_pending ex_create None ''tE'' 100000 ex_store_claimed") simp_all
  then obtain s1 r1 where
    a1: "applyAssignment ex_pending ex_create None ''tE'' 100000 ex_store_claimed = Inr (s1, r1)"
    by (cases x1) simp
  have k1: "action ex_create = Create"
    by (simp_all add: ex_create_def)
  from applyAssignment_produces_thread_id [OF n, of ex_pending ex_create None 100000 ex_store_claimed]
  have t1: "\<forall>s' r. applyAssignment ex_pending ex_create None ''tE'' 100000 ex_store_claimed = Inr (s', r) \<longrightarrow>
            (if action ex_create = Create \<or> threadId ex_create = None \<or> threadId ex_create = Some []
             then threadId_r r = ''tE'' \<and> createdThreadId r = Some ''tE'' \<and>
                  ''tE'' \<notin> thread_ids ex_store_claimed \<and>
                  thread_ids s' = insert ''tE'' (thread_ids ex_store_claimed)
             else threadId ex_create = Some (threadId_r r) \<and> createdThreadId r = None \<and>
                  thread_ids s' = thread_ids ex_store_claimed)"
    by (elim conjE)
  from t1 [rule_format, OF a1] k1 ids
  have c1: "threadId_r r1 = ''tE''" "createdThreadId r1 = Some ''tE''" "thread_ids s1 = {''tE'', ''tB''}"
    by simp_all
  have e1: "\<exists>s' r. applyAssignment ex_pending ex_create None ''tE'' 100000 ex_store_claimed = Inr (s', r) \<and>
           threadId_r r = ''tE'' \<and> createdThreadId r = Some ''tE'' \<and> thread_ids s' = {''tE'', ''tB''}"
    using a1 c1 by (intro exI [of _ s1] exI [of _ r1]) simp
  have "\<not> isl (applyAssignment ex_pending ex_assign_B None ''tE'' 100000 ex_store_claimed)"
    by code_simp
  then obtain x2 where
    "applyAssignment ex_pending ex_assign_B None ''tE'' 100000 ex_store_claimed = Inr x2"
    by (cases "applyAssignment ex_pending ex_assign_B None ''tE'' 100000 ex_store_claimed") simp_all
  then obtain s2 r2 where
    a2: "applyAssignment ex_pending ex_assign_B None ''tE'' 100000 ex_store_claimed = Inr (s2, r2)"
    by (cases x2) simp
  have k2: "action ex_assign_B = Assign" "threadId ex_assign_B = Some ''tB''"
    by (simp_all add: ex_assign_B_def)
  from applyAssignment_produces_thread_id [OF n, of ex_pending ex_assign_B None 100000 ex_store_claimed]
  have t2: "\<forall>s' r. applyAssignment ex_pending ex_assign_B None ''tE'' 100000 ex_store_claimed = Inr (s', r) \<longrightarrow>
            (if action ex_assign_B = Create \<or> threadId ex_assign_B = None \<or> threadId ex_assign_B = Some []
             then threadId_r r = ''tE'' \<and> createdThreadId r = Some ''tE'' \<and>
                  ''tE'' \<notin> thread_ids ex_store_claimed \<and>
                  thread_ids s' = insert ''tE'' (thread_ids ex_store_claimed)
             else threadId ex_assign_B = Some (threadId_r r) \<and> createdThreadId r = None \<and>
                  thread_ids s' = thread_ids ex_store_claimed)"
    by (elim conjE)
  from t2 [rule_format, OF a2] k2 ids
  have c2: "threadId_r r2 = ''tB''" "createdThreadId r2 = None" "thread_ids s2 = {''tB''}"
    by simp_all
  have e2: "\<exists>s' r. applyAssignment ex_pending ex_assign_B None ''tE'' 100000 ex_store_claimed = Inr (s', r) \<and>
           threadId_r r = ''tB'' \<and> createdThreadId r = None \<and> thread_ids s' = {''tB''}"
    using a2 c2 by (intro exI [of _ s2] exI [of _ r2]) simp
  from n e1 e2 show ?thesis by (intro conjI)
qed

section \<open>The store under the steps of the engine\<close>

subsection \<open>Messages under the assignment statements\<close>

lemma claimPendingMessage_None:
  "claimPendingMessage s = (None, s0) \<Longrightarrow> s0 = s"
  by (auto simp: claimPendingMessage_def Let_def split: if_splits)

lemma claimPendingMessage_Some:
  assumes "claimPendingMessage s = (Some pending, s1)"
  shows "threads s1 = threads s"
    and "messages s1 = map (\<lambda>m. if id_m m = id_p pending
                                  then m\<lparr> assignment_status := In_progress \<rparr> else m) (messages s)"
    and "\<exists>m\<in>set (messages s). id_m m = id_p pending \<and> assignment_status m = Pending"
proof -
  let ?ps = "filter (\<lambda>m. assignment_status m = Pending) (messages s)"
  from assms have ne: "?ps \<noteq> []"
    by (auto simp: claimPendingMessage_def Let_def split: if_splits)
  from assms ne have p: "id_p pending = id_m (arg_min_list created_at_m ?ps)"
    and s1: "s1 = s\<lparr> messages := map (\<lambda>m. if id_m m = id_p pending
                                  then m\<lparr> assignment_status := In_progress \<rparr> else m) (messages s) \<rparr>"
    by (auto simp: claimPendingMessage_def Let_def split: if_splits)
  from s1 show "threads s1 = threads s" by simp
  from s1 show "messages s1 = map (\<lambda>m. if id_m m = id_p pending
                                  then m\<lparr> assignment_status := In_progress \<rparr> else m) (messages s)"
    by simp
  from arg_min_list_in [OF ne, of created_at_m]
  have "arg_min_list created_at_m ?ps \<in> set (messages s)"
    and "assignment_status (arg_min_list created_at_m ?ps) = Pending"
    by auto
  with p show "\<exists>m\<in>set (messages s). id_m m = id_p pending \<and> assignment_status m = Pending"
    by auto
qed

lemma assignMessage_Inr:
  assumes "assignMessage pid tid note s = Inr s'"
  shows "threads s' = threads s"
    and "messages s' = map (\<lambda>m. if id_m m = pid
                                  then m\<lparr> thread_id := Some tid, assignment_status := Assigned,
                                          assignment_note := Some note \<rparr>
                                  else m) (messages s)"
  using assms by (auto simp: assignMessage_def split: if_splits)

lemma messages_touchThread [simp]:
  "messages (touchThread tid ts now s) = messages s"
  by (simp add: touchThread_def)

lemma threads_markFailed [simp]: "threads (markFailed pid s) = threads s"
  by (simp add: markFailed_def)

text \<open>
  What \<^verbatim>\<open>applyAssignment\<close> does to the messages: the row of the claimed
  message becomes assigned, every other row stays.
\<close>

lemma applyAssignment_messages:
  assumes "applyAssignment pending decision revivalSourceId newId now s = Inr (s', r)"
  shows "messages s' = map (\<lambda>m. if id_m m = id_p pending
                                  then m\<lparr> thread_id := Some (threadId_r r),
                                          assignment_status := Assigned,
                                          assignment_note := Some (reason decision) \<rparr>
                                  else m) (messages s)"
proof (cases "action decision = Create \<or> \<not> truthy (threadId decision)")
  case True
  with assms obtain s1 tidOpt created link where
    c: "createThread pending decision revivalSourceId newId now s = Inr (s1, tidOpt, created, link)"
    by (auto simp: applyAssignment_def split: sum.splits)
  note k = createThread_Inr [OF c]
  from assms True c k(1) obtain s2 where
    a: "assignMessage (id_p pending) newId (reason decision) s1 = Inr s2"
    and s': "s' = touchThread newId (created_at_p pending) now s2"
    and r: "threadId_r r = newId"
    by (auto simp: applyAssignment_def split: sum.splits if_splits)
  from assignMessage_Inr(2) [OF a] s' r k(5) show ?thesis by simp
next
  case False
  then obtain tid where t: "threadId decision = Some tid" "tid \<noteq> []"
    by (auto simp: truthy_def split: option.splits)
  from assms False t obtain s2 where
    a: "assignMessage (id_p pending) tid (reason decision) s = Inr s2"
    and s': "s' = touchThread tid (created_at_p pending) now s2"
    and r: "threadId_r r = tid"
    by (auto simp: applyAssignment_def split: sum.splits if_splits)
  from assignMessage_Inr(2) [OF a] s' r show ?thesis by simp
qed

lemma insertThread_new:
  assumes "insertThread ttl l newId now s = Inr s0"
  shows "\<exists>n. threads s0 = threads s @ [n] \<and> id_t n = newId \<and> revives_thread_id n = None \<and>
             continued_in_thread_id n = None \<and> state n = Active"
  using assms by (auto simp: insertThread_def split: if_splits)

lemma supersedeArchived_none:
  assumes "fst (supersedeArchived rid tid now s) = 0"
  shows "threads (snd (supersedeArchived rid tid now s)) = threads s"
proof -
  from assms have "\<forall>t\<in>set (threads s). \<not> (id_t t = rid \<and> state t = Archived)"
    by (auto simp: supersedeArchived_def Let_def filter_empty_conv)
  then have "map (\<lambda>t. if id_t t = rid \<and> state t = Archived
                      then t\<lparr> state := Superseded, superseded_at := Some now,
                              continued_in_thread_id := Some tid, updated_at := now \<rparr>
                      else t) (threads s) = threads s"
    by (intro map_idI) auto
  then show ?thesis
    by (simp add: supersedeArchived_def Let_def)
qed

text \<open>
  The two ways in which a pass of \<^verbatim>\<open>processSinglePendingMessage\<close> over a
  claimed message ends.
\<close>

lemma attemptAssignment_shape:
  "(\<exists>e. attemptAssignment ai fetchedActive fetchedArchived newId now pending s1 = Inl e) \<or>
   (\<exists>decision revivalSourceId.
      attemptAssignment ai fetchedActive fetchedArchived newId now pending s1 =
        applyAssignment pending decision revivalSourceId newId now s1)"
proof (cases fetchedActive)
  case None
  then show ?thesis by (simp add: attemptAssignment_def)
next
  case (Some candidates)
  show ?thesis
  proof (cases "action (decideFor ai pending candidates) = Create")
    case True
    show ?thesis
    proof (cases fetchedArchived)
      case None
      with Some True show ?thesis by (simp add: attemptAssignment_def)
    next
      case rows: (Some rows)
      with Some True
      have "attemptAssignment ai fetchedActive fetchedArchived newId now pending s1 =
          applyAssignment pending (decideFor ai pending candidates)
          (findRevivalSource ai rows pending) newId now s1"
        by (simp add: attemptAssignment_def)
      then show ?thesis by blast
    qed
  next
    case False
    with Some
    have "attemptAssignment ai fetchedActive fetchedArchived newId now pending s1 =
          applyAssignment pending (decideFor ai pending candidates) None newId now s1"
      by (simp add: attemptAssignment_def)
    then show ?thesis by blast
  qed
qed

lemma processSinglePendingMessage_cases:
  assumes "processSinglePendingMessage ai fetchedActive fetchedArchived newId now s = (b, s')"
  obtains (idle) "claimPendingMessage s = (None, s)" "b = False" "s' = s"
  | (applied) pending s1 decision revivalSourceId r where
      "claimPendingMessage s = (Some pending, s1)" "b = True"
      "applyAssignment pending decision revivalSourceId newId now s1 = Inr (s', r)"
  | (failed) pending s1 where
      "claimPendingMessage s = (Some pending, s1)" "b = True"
      "s' = markFailed (id_p pending) s1"
proof (cases "claimPendingMessage s")
  case (Pair po s1)
  show ?thesis
  proof (cases po)
    case None
    have c: "claimPendingMessage s = (None, s1)" using Pair None by simp
    have e: "s1 = s" by (rule claimPendingMessage_None [OF c])
    from assms have "b = False" "s' = s1"
      unfolding processSinglePendingMessage_def c by simp_all
    with c e show ?thesis by (intro idle) simp_all
  next
    case (Some pending)
    let ?att = "attemptAssignment ai fetchedActive fetchedArchived newId now pending s1"
    have c: "claimPendingMessage s = (Some pending, s1)" using Pair Some by simp
    have r: "(b, s') = (case ?att of
                Inr (s2, assignment) \<Rightarrow> (True, s2)
              | Inl e \<Rightarrow> (True, markFailed (id_p pending) s1))"
      using assms unfolding processSinglePendingMessage_def c by simp
    show ?thesis
    proof (cases ?att)
      case (Inl e)
      with r have "b = True" "s' = markFailed (id_p pending) s1" by simp_all
      with c failed show ?thesis by blast
    next
      case (Inr x)
      obtain s2 a where x: "x = (s2, a)" by (cases x)
      from r Inr x have bs: "b = True" "s' = s2" by simp_all
      from attemptAssignment_shape [of ai fetchedActive fetchedArchived newId now pending s1] Inr
      obtain decision revivalSourceId where
        "applyAssignment pending decision revivalSourceId newId now s1 = Inr x"
        by auto
      with x bs c applied show ?thesis by blast
    qed
  qed
qed

subsection \<open>The revival link of one assignment\<close>

lemma touched_rows:
  assumes a: "assignMessage pid tid note s1 = Inr s2"
  shows "length (threads (touchThread tid ts now s2)) = length (threads s1)"
    and "\<And>i. i < length (threads s1) \<Longrightarrow>
           id_t (threads (touchThread tid ts now s2) ! i) = id_t (threads s1 ! i) \<and>
           revives_thread_id (threads (touchThread tid ts now s2) ! i)
             = revives_thread_id (threads s1 ! i) \<and>
           continued_in_thread_id (threads (touchThread tid ts now s2) ! i)
             = continued_in_thread_id (threads s1 ! i) \<and>
           (state (threads s1 ! i) = Superseded \<longrightarrow>
              state (threads (touchThread tid ts now s2) ! i) = Superseded)"
  using assignMessage_Inr(1) [OF a] by (simp_all add: touchThread_def)

lemma linked_rows:
  fixes s0 :: Store and newId rid :: string and now :: timestamptz
  defines "s1 \<equiv> setRevives newId rid now (snd (supersedeArchived rid newId now s0))"
  shows "length (threads s1) = length (threads s0)"
    and "\<And>i. i < length (threads s0) \<Longrightarrow>
           id_t (threads s1 ! i) = id_t (threads s0 ! i) \<and>
           revives_thread_id (threads s1 ! i)
             = (if id_t (threads s0 ! i) = newId then Some rid
                else revives_thread_id (threads s0 ! i)) \<and>
           continued_in_thread_id (threads s1 ! i)
             = (if id_t (threads s0 ! i) = rid \<and> state (threads s0 ! i) = Archived
                then Some newId else continued_in_thread_id (threads s0 ! i)) \<and>
           (id_t (threads s0 ! i) = rid \<and> state (threads s0 ! i) = Archived \<longrightarrow>
              state (threads s1 ! i) = Superseded)"
  by (auto simp: s1_def setRevives_def supersedeArchived_def Let_def)

text \<open>The revival fields of the rows, in table order.\<close>

lemma touched_fields:
  assumes a: "assignMessage pid tid note s1 = Inr s2"
  shows "map (\<lambda>t. (revives_thread_id t, continued_in_thread_id t))
           (threads (touchThread tid ts now s2))
         = map (\<lambda>t. (revives_thread_id t, continued_in_thread_id t)) (threads s1)"
  using assignMessage_Inr(1) [OF a] by (simp add: touchThread_def o_def if_distrib cong: if_cong)


text \<open>The three ways in which \<^verbatim>\<open>applyAssignment\<close> commits.\<close>

lemma applyAssignment_cases:
  assumes ap: "applyAssignment pending decision revivalSourceId newId now s = Inr (s', r)"
  obtains (kept) tid s2 where
      "assignMessage (id_p pending) tid (reason decision) s = Inr s2"
      "s' = touchThread tid (created_at_p pending) now s2"
      "createdThreadId r = None" "revivalLink r = None"
  | (created) s0 s1 s2 where
      "insertThread
         (case title decision of None \<Rightarrow> buildTitle (content_p pending) | Some x \<Rightarrow> x)
         (created_at_p pending) newId now s = Inr s0"
      "threads s1 = threads s0"
      "assignMessage (id_p pending) newId (reason decision) s1 = Inr s2"
      "s' = touchThread newId (created_at_p pending) now s2"
      "createdThreadId r = Some newId" "revivalLink r = None"
      "\<not> truthy revivalSourceId \<or>
       (\<exists>rid. revivalSourceId = Some rid \<and> fst (supersedeArchived rid newId now s0) = 0)"
  | (linked) rid s0 s2 where
      "insertThread
         (case title decision of None \<Rightarrow> buildTitle (content_p pending) | Some x \<Rightarrow> x)
         (created_at_p pending) newId now s = Inr s0"
      "revivalSourceId = Some rid" "fst (supersedeArchived rid newId now s0) > 0"
      "assignMessage (id_p pending) newId (reason decision)
         (setRevives newId rid now (snd (supersedeArchived rid newId now s0))) = Inr s2"
      "s' = touchThread newId (created_at_p pending) now s2"
      "createdThreadId r = Some newId" "revivalLink r = Some (rid, newId)"
proof (cases "action decision = Create \<or> \<not> truthy (threadId decision)")
  case False
  then obtain tid where t: "threadId decision = Some tid" "tid \<noteq> []"
    by (auto simp: truthy_def split: option.splits)
  from ap False t obtain s2 where
    "assignMessage (id_p pending) tid (reason decision) s = Inr s2"
    "s' = touchThread tid (created_at_p pending) now s2"
    "createdThreadId r = None" "revivalLink r = None"
    by (auto simp: applyAssignment_def split: sum.splits if_splits)
  then show ?thesis by (rule kept)
next
  case True
  with ap obtain s1 tidOpt cr link where
    c: "createThread pending decision revivalSourceId newId now s = Inr (s1, tidOpt, cr, link)"
    by (auto simp: applyAssignment_def split: sum.splits)
  note k = createThread_Inr [OF c]
  from ap True c k(1) obtain s2 where
    a: "assignMessage (id_p pending) newId (reason decision) s1 = Inr s2"
    and s': "s' = touchThread newId (created_at_p pending) now s2"
    and r: "createdThreadId r = cr" "revivalLink r = link"
    by (auto simp: applyAssignment_def split: sum.splits if_splits)
  from createThread_shape [OF c] obtain s0 where
    i: "insertThread
          (case title decision of None \<Rightarrow> buildTitle (content_p pending) | Some x \<Rightarrow> x)
          (created_at_p pending) newId now s = Inr s0"
    and sh: "(s1 = s0 \<and> link = None \<and> \<not> truthy revivalSourceId) \<or>
             (\<exists>rid. revivalSourceId = Some rid \<and> rid \<noteq> [] \<and>
                    fst (supersedeArchived rid newId now s0) = 0 \<and>
                    s1 = snd (supersedeArchived rid newId now s0) \<and> link = None) \<or>
             (\<exists>rid. revivalSourceId = Some rid \<and> rid \<noteq> [] \<and>
                    fst (supersedeArchived rid newId now s0) > 0 \<and>
                    s1 = setRevives newId rid now (snd (supersedeArchived rid newId now s0)) \<and>
                    link = Some (rid, newId))"
    by blast
  from sh consider (p) "s1 = s0" "link = None" "\<not> truthy revivalSourceId"
    | (l) rid where "revivalSourceId = Some rid" "fst (supersedeArchived rid newId now s0) = 0"
        "s1 = snd (supersedeArchived rid newId now s0)" "link = None"
    | (k) rid where "revivalSourceId = Some rid" "fst (supersedeArchived rid newId now s0) > 0"
        "s1 = setRevives newId rid now (snd (supersedeArchived rid newId now s0))"
        "link = Some (rid, newId)"
    by blast
  then show ?thesis
  proof cases
    case p
    have "threads s1 = threads s0" using p(1) by simp
    from created [OF i this a s'] r k(2) p(2,3) show ?thesis by simp
  next
    case l
    have "threads s1 = threads s0" using supersedeArchived_none [OF l(2)] l(3) by simp
    from created [OF i this a s'] r k(2) l(1,2,4) show ?thesis by simp
  next
    case k
    from linked [OF i k(1,2) a [unfolded k(3)] s'] r \<open>cr = Some newId\<close> k(4)
    show ?thesis by simp
  qed
qed

lemma linked_commit:
  assumes d: "distinct (map id_t (threads s))"
    and i: "insertThread ttl l newId now s = Inr s0"
    and cnt: "fst (supersedeArchived rid newId now s0) > 0"
    and a: "assignMessage pid newId note
              (setRevives newId rid now (snd (supersedeArchived rid newId now s0))) = Inr s2"
    and s': "s' = touchThread newId ts now s2"
  shows "(\<exists>y\<in>set (threads s). id_t y = rid \<and> state y = Archived) \<and>
         (\<exists>x\<in>set (threads s'). id_t x = newId) \<and>
         (\<forall>x\<in>set (threads s'). id_t x = newId \<longrightarrow> revives_thread_id x = Some rid) \<and>
         (\<exists>y\<in>set (threads s'). id_t y = rid) \<and>
         (\<forall>y\<in>set (threads s'). id_t y = rid \<longrightarrow>
            continued_in_thread_id y = Some newId \<and> state y = Superseded)"
proof -
  let ?s1 = "setRevives newId rid now (snd (supersedeArchived rid newId now s0))"
  have d0: "distinct (map id_t (threads s0))"
    using insertThread_Inr [OF i] d by (simp add: thread_ids_def)
  from insertThread_new [OF i] obtain n where n: "threads s0 = threads s @ [n]"
    "id_t n = newId" "state n = Active"
    by blast
  from cnt obtain ol where ol: "ol \<in> set (threads s0)" "id_t ol = rid" "state ol = Archived"
    by (auto simp: supersedeArchived_def Let_def filter_empty_conv)
  have uo: "\<And>t. t \<in> set (threads s0) \<Longrightarrow> id_t t = rid \<Longrightarrow> t = ol"
    using distinct_map_eq [OF d0 _ ol(1)] ol(2) by simp
  from ol n have ols: "ol \<in> set (threads s)" by auto
  have len: "length (threads s') = length (threads s0)"
    using touched_rows(1) [OF a] linked_rows(1) [of newId rid now s0] by (simp add: s')
  have row: "id_t (threads s' ! j) = id_t (threads s0 ! j) \<and>
             revives_thread_id (threads s' ! j)
               = (if id_t (threads s0 ! j) = newId then Some rid
                  else revives_thread_id (threads s0 ! j)) \<and>
             continued_in_thread_id (threads s' ! j)
               = (if id_t (threads s0 ! j) = rid \<and> state (threads s0 ! j) = Archived
                  then Some newId else continued_in_thread_id (threads s0 ! j)) \<and>
             (id_t (threads s0 ! j) = rid \<and> state (threads s0 ! j) = Archived \<longrightarrow>
                state (threads s' ! j) = Superseded)"
    if j: "j < length (threads s0)" for j
  proof -
    have j1: "j < length (threads ?s1)" using j linked_rows(1) [of newId rid now s0] by simp
    from touched_rows(2) [OF a j1, of ts now] linked_rows(2) [OF j, of newId rid now]
    show ?thesis unfolding s' by simp
  qed
  have c1: "\<exists>y\<in>set (threads s). id_t y = rid \<and> state y = Archived"
    using ols ol by blast
  have c2: "\<exists>x\<in>set (threads s'). id_t x = newId"
  proof -
    have j: "length (threads s) < length (threads s0)" by (simp add: n(1))
    have "threads s0 ! length (threads s) = n" by (simp add: n(1))
    with row [OF j] n(2) have "id_t (threads s' ! length (threads s)) = newId" by simp
    moreover have "threads s' ! length (threads s) \<in> set (threads s')"
      using j len by simp
    ultimately show ?thesis by blast
  qed
  have c3: "\<forall>x\<in>set (threads s'). id_t x = newId \<longrightarrow> revives_thread_id x = Some rid"
  proof (intro ballI impI)
    fix x assume "x \<in> set (threads s')" and x: "id_t x = newId"
    then obtain j where j: "j < length (threads s0)" "x = threads s' ! j"
      using len by (auto simp: in_set_conv_nth)
    from row [OF j(1)] j(2) x show "revives_thread_id x = Some rid" by simp
  qed
  have c4: "\<exists>y\<in>set (threads s'). id_t y = rid"
  proof -
    from ol(1) obtain j where j: "j < length (threads s0)" "threads s0 ! j = ol"
      by (auto simp: in_set_conv_nth)
    with row [OF j(1)] ol(2) have "id_t (threads s' ! j) = rid" by simp
    moreover have "threads s' ! j \<in> set (threads s')" using j(1) len by simp
    ultimately show ?thesis by blast
  qed
  have c5: "\<forall>y\<in>set (threads s'). id_t y = rid \<longrightarrow>
            continued_in_thread_id y = Some newId \<and> state y = Superseded"
  proof (intro ballI impI)
    fix y assume "y \<in> set (threads s')" and y: "id_t y = rid"
    then obtain j where j: "j < length (threads s0)" "y = threads s' ! j"
      using len by (auto simp: in_set_conv_nth)
    from row [OF j(1)] j(2) y have "id_t (threads s0 ! j) = rid" by simp
    moreover have "threads s0 ! j \<in> set (threads s0)" using j(1) by simp
    ultimately have "threads s0 ! j = ol" using uo by blast
    with row [OF j(1)] j(2) ol show "continued_in_thread_id y = Some newId \<and> state y = Superseded"
      by simp
  qed
  from c1 c2 c3 c4 c5 show ?thesis by (intro conjI)
qed

text \<open>
  The revival link is made inside the one transaction of \<^verbatim>\<open>applyAssignment\<close>.
  On a store whose thread ids are unique: when the transaction reports no
  revival link, the revival fields of all rows are as before and those of a new
  row are null; when it reports a link, the old thread was archived before the
  transaction, and after it the new thread revives the old one and the old one
  is superseded and continued in the new one; and when no row with the id of
  the revival source is archived, no link is made.
\<close>

lemma applyAssignment_revival_link:
  assumes d: "distinct (map id_t (threads s1))"
    and ap: "applyAssignment pending decision revivalSourceId newId now s1 = Inr (s', r)"
  shows "(revivalLink r = None \<longrightarrow>
            map (\<lambda>t. (revives_thread_id t, continued_in_thread_id t)) (threads s')
              = map (\<lambda>t. (revives_thread_id t, continued_in_thread_id t)) (threads s1)
                @ (case createdThreadId r of None \<Rightarrow> [] | Some i \<Rightarrow> [(None, None)])) \<and>
         (\<forall>oldId nw. revivalLink r = Some (oldId, nw) \<longrightarrow>
            nw = newId \<and> revivalSourceId = Some oldId \<and>
            (\<exists>y\<in>set (threads s1). id_t y = oldId \<and> state y = Archived) \<and>
            (\<exists>x\<in>set (threads s'). id_t x = newId) \<and>
            (\<forall>x\<in>set (threads s'). id_t x = newId \<longrightarrow> revives_thread_id x = Some oldId) \<and>
            (\<exists>y\<in>set (threads s'). id_t y = oldId) \<and>
            (\<forall>y\<in>set (threads s'). id_t y = oldId \<longrightarrow>
               continued_in_thread_id y = Some newId \<and> state y = Superseded)) \<and>
         (\<forall>rid. revivalSourceId = Some rid \<and>
                (\<forall>y\<in>set (threads s1). id_t y = rid \<longrightarrow> state y \<noteq> Archived)
                \<longrightarrow> revivalLink r = None)"
  using ap
proof (cases rule: applyAssignment_cases)
  case (kept tid s2)
  from touched_fields [OF kept(1)] kept(2,3,4)
  show ?thesis by simp
next
  case (created s0 sc s2)
  from insertThread_new [OF created(1)] obtain n where n: "threads s0 = threads s1 @ [n]"
    "revives_thread_id n = None" "continued_in_thread_id n = None" "state n = Active"
    by blast
  have f: "map (\<lambda>t. (revives_thread_id t, continued_in_thread_id t)) (threads s')
            = map (\<lambda>t. (revives_thread_id t, continued_in_thread_id t)) (threads s1)
              @ [(None, None)]"
    using touched_fields [OF created(3)] created(2,4) n
    by simp
  with created(5,6) show ?thesis by simp
next
  case (linked rid s0 s2)
  note c = linked_commit [OF d linked(1,3,4,5)]
  have a: "revivalLink r = None \<longrightarrow>
          map (\<lambda>t. (revives_thread_id t, continued_in_thread_id t)) (threads s')
            = map (\<lambda>t. (revives_thread_id t, continued_in_thread_id t)) (threads s1)
              @ (case createdThreadId r of None \<Rightarrow> [] | Some i \<Rightarrow> [(None, None)])"
    using linked(7) by simp
  have b: "\<forall>oldId nw. revivalLink r = Some (oldId, nw) \<longrightarrow>
          nw = newId \<and> revivalSourceId = Some oldId \<and>
          (\<exists>y\<in>set (threads s1). id_t y = oldId \<and> state y = Archived) \<and>
          (\<exists>x\<in>set (threads s'). id_t x = newId) \<and>
          (\<forall>x\<in>set (threads s'). id_t x = newId \<longrightarrow> revives_thread_id x = Some oldId) \<and>
          (\<exists>y\<in>set (threads s'). id_t y = oldId) \<and>
          (\<forall>y\<in>set (threads s'). id_t y = oldId \<longrightarrow>
             continued_in_thread_id y = Some newId \<and> state y = Superseded)"
    using c linked(2,7) by simp
  have e: "\<forall>rid'. revivalSourceId = Some rid' \<and>
              (\<forall>y\<in>set (threads s1). id_t y = rid' \<longrightarrow> state y \<noteq> Archived)
              \<longrightarrow> revivalLink r = None"
    using c linked(2) by auto
  from a b e show ?thesis by (intro conjI)
qed


subsection \<open>The keys of the reachable stores\<close>

text \<open>A merge tick keeps the rows of the message table, their ids and their statuses.\<close>

lemma mergeTick_messages:
  "\<exists>f. messages (mergeTick ai fetched now s) = map f (messages s) \<and>
       (\<forall>m. id_m (f m) = id_m m \<and> assignment_status (f m) = assignment_status m)"
proof (cases "\<exists>candidates pair src tgt s'. fetched = Some candidates \<and> \<not> length candidates < 2 \<and>
      findMergePair candidates = Some pair \<and> resolveMerge ai pair = Some (src, tgt) \<and>
      mergeTransaction now src tgt s = Inr (Some s')")
  case True
  then obtain candidates pair src tgt s' where k: "fetched = Some candidates"
    "\<not> length candidates < 2" "findMergePair candidates = Some pair"
    "resolveMerge ai pair = Some (src, tgt)" "mergeTransaction now src tgt s = Inr (Some s')"
    by blast
  then have "mergeTick ai fetched now s = s'" by (simp add: mergeTick_def)
  with mergeTransaction_Some(3) [OF k(5)]
  have "messages (mergeTick ai fetched now s)
          = map (\<lambda>m. if thread_id m = Some src then m\<lparr> thread_id := Some tgt \<rparr> else m) (messages s)"
    by simp
  then show ?thesis
    by (intro exI [of _ "\<lambda>m. if thread_id m = Some src then m\<lparr> thread_id := Some tgt \<rparr> else m"])
      simp
next
  case False
  then have "mergeTick ai fetched now s = s"
    by (auto simp: mergeTick_def split: option.splits sum.splits prod.splits)
  then show ?thesis by (intro exI [of _ "\<lambda>m. m"]) simp
qed

text \<open>What one step does to the keys of the two tables.\<close>

lemma applyAssignment_thread_ids:
  assumes ap: "applyAssignment pending decision revivalSourceId newId now s = Inr (s', r)"
  shows "map id_t (threads s') = map id_t (threads s) \<or>
         newId \<notin> thread_ids s \<and> map id_t (threads s') = map id_t (threads s) @ [newId]"
  using ap
proof (cases rule: applyAssignment_cases)
  case (kept tid s2)
  then show ?thesis by (simp add: threads_assignMessage)
next
  case (created s0 sc s2)
  from insertThread_Inr [OF created(1)] created(2,4) threads_assignMessage [OF created(3)]
  show ?thesis by simp
next
  case (linked rid s0 s2)
  from insertThread_Inr [OF linked(1)] linked(5) threads_assignMessage [OF linked(4)]
  show ?thesis by simp
qed

lemma mergeTick_thread_ids:
  "map id_t (threads (mergeTick ai fetched now s)) = map id_t (threads s)"
proof (cases "\<exists>candidates pair src tgt s'. fetched = Some candidates \<and> \<not> length candidates < 2 \<and>
      findMergePair candidates = Some pair \<and> resolveMerge ai pair = Some (src, tgt) \<and>
      mergeTransaction now src tgt s = Inr (Some s')")
  case True
  then obtain candidates pair src tgt s' where k: "fetched = Some candidates"
    "\<not> length candidates < 2" "findMergePair candidates = Some pair"
    "resolveMerge ai pair = Some (src, tgt)" "mergeTransaction now src tgt s = Inr (Some s')"
    by blast
  then have "mergeTick ai fetched now s = s'" by (simp add: mergeTick_def)
  with mergeTransaction_Some(4) [OF k(5)] show ?thesis
    by (simp add: o_def if_distrib cong: if_cong)
next
  case False
  then have "mergeTick ai fetched now s = s"
    by (auto simp: mergeTick_def split: option.splits sum.splits prod.splits)
  then show ?thesis by simp
qed

lemma step_keys:
  assumes st: "engine_step s s'"
  shows "(map id_t (threads s') = map id_t (threads s) \<or>
          (\<exists>n. n \<notin> set (map id_t (threads s)) \<and>
                map id_t (threads s') = map id_t (threads s) @ [n])) \<and>
         (map id_m (messages s') = map id_m (messages s) \<or>
          (\<exists>n. n \<notin> set (map id_m (messages s)) \<and>
                map id_m (messages s') = map id_m (messages s) @ [n]))"
  using st
proof (cases rule: engine_step.cases)
  case (post author content newId now)
  then show ?thesis by (auto simp: postMessage_def Let_def split: if_splits)
next
  case (assign ai fetchedActive fetchedArchived newId now b)
  from assign(1) show ?thesis
  proof (cases rule: processSinglePendingMessage_cases)
    case idle
    then show ?thesis by simp
  next
    case (applied pending s1 decision revivalSourceId r)
    note k = claimPendingMessage_Some [OF applied(1)]
    have m1: "map id_m (messages s1) = map id_m (messages s)"
      by (simp add: k(2) o_def if_distrib cong: if_cong)
    have m2: "map id_m (messages s') = map id_m (messages s1)"
      by (simp add: applyAssignment_messages [OF applied(3)] o_def if_distrib cong: if_cong)
    from applyAssignment_thread_ids [OF applied(3)] k(1) m1 m2 show ?thesis
      by (auto simp: thread_ids_def)
  next
    case (failed pending s1)
    note k = claimPendingMessage_Some [OF failed(1)]
    have m1: "map id_m (messages s1) = map id_m (messages s)"
      by (simp add: k(2) o_def if_distrib cong: if_cong)
    have m2: "map id_m (messages s') = map id_m (messages s1)"
      by (simp add: failed(3) markFailed_def o_def if_distrib cong: if_cong)
    from k(1) m1 m2 failed(3) show ?thesis by simp
  qed
next
  case (lifecycle cfg now1 now2)
  then have "messages s' = messages s" "map id_t (threads s') = map id_t (threads s)"
    by (simp_all add: lifecycleTick_def coolThreads_def archiveThreads_def o_def if_distrib
        cong: if_cong)
  then show ?thesis by simp
next
  case (merge ai fetched now)
  from mergeTick_messages [of ai fetched now s] merge(1)
  obtain f where "messages s' = map f (messages s)"
    "\<forall>m. id_m (f m) = id_m m \<and> assignment_status (f m) = assignment_status m"
    by auto
  then have "map id_m (messages s') = map id_m (messages s)" by (simp add: o_def)
  with mergeTick_thread_ids [of ai fetched now s] merge(1) show ?thesis by simp
qed

text \<open>The primary keys: in a reachable store no two rows of a table share an id.\<close>

lemma reachable_keys:
  "reachable s \<Longrightarrow> distinct (map id_t (threads s)) \<and> distinct (map id_m (messages s))"
proof (induction rule: reachable.induct)
  case init
  show ?case by simp
next
  case (step s s')
  from step_keys [OF step.hyps(2)] step.IH show ?case by auto
qed


subsection \<open>A merge that commits on rows read earlier\<close>

text \<open>The steps of the sample run in which a merge tick commits late.\<close>

lemma post_step:
  "\<not> isl (postMessage author content newId now s) \<Longrightarrow>
     engine_step s (projr (postMessage author content newId now s))"
  by (rule engine_step.post [of author content newId now]) simp

lemma assign_step:
  "engine_step s (snd (processSinglePendingMessage ai fetchedActive fetchedArchived newId now s))"
  by (rule engine_step.assign, rule surjective_pairing)

lemma ex_run_posts:
  "\<not> isl (postMessage ''ann'' ''deploy pipeline broken'' ''m0'' 10000
            \<lparr> threads = [], messages = [] \<rparr>)"
  "\<not> isl (postMessage ''bob'' ''pipeline deploy is broken on staging'' ''m1'' 2000000 ex_run2)"
  "\<not> isl (postMessage ''ann'' ''deploy ping'' ''m2'' 259208000000 ex_run5)"
  "\<not> isl (postMessage ''bob'' ''staging deploy pipeline broken'' ''m3'' 259211000000 ex_run8)"
  "\<not> isl (postMessage ''ann'' ''deploy pipeline on staging broken again'' ''m4''
            518411000000 ex_run14)"
  by code_simp+

lemma ex_run_written:
  "lifecycleTick ex_cfg 1810000000 1810000000 ex_run4 = ex_run5"
  "snd (processSinglePendingMessage ai_run
          (Some (fetchActiveThreadCandidates 15 ex_run9))
          (Some (fetchArchivedCandidates 20 ex_run9)) ''tE'' 259213000000 ex_run9) = ex_run10"
  "lifecycleTick ex_cfg 518410000000 518410000000 ex_run13 = ex_run14"
  by code_simp+

lemma ex_run_steps:
  "engine_step \<lparr> threads = [], messages = [] \<rparr> ex_run1"
  "engine_step ex_run1 ex_run2" "engine_step ex_run2 ex_run3" "engine_step ex_run3 ex_run4"
  "engine_step ex_run4 ex_run5" "engine_step ex_run5 ex_run6" "engine_step ex_run6 ex_run7"
  "engine_step ex_run7 ex_run8" "engine_step ex_run8 ex_run9" "engine_step ex_run9 ex_run10"
  "engine_step ex_run10 ex_run11" "engine_step ex_run11 ex_run12" "engine_step ex_run12 ex_run13"
  "engine_step ex_run13 ex_run14" "engine_step ex_run14 ex_run15" "engine_step ex_run15 ex_run16"
proof -
  show "engine_step \<lparr> threads = [], messages = [] \<rparr> ex_run1"
    unfolding ex_run1_def by (rule post_step [OF ex_run_posts(1)])
  show "engine_step ex_run1 ex_run2" unfolding ex_run2_def by (rule assign_step)
  show "engine_step ex_run2 ex_run3"
    unfolding ex_run3_def by (rule post_step [OF ex_run_posts(2)])
  show "engine_step ex_run3 ex_run4" unfolding ex_run4_def by (rule assign_step)
  show "engine_step ex_run4 ex_run5"
    unfolding ex_run_written(1) [symmetric] by (rule engine_step.lifecycle)
  show "engine_step ex_run5 ex_run6"
    unfolding ex_run6_def by (rule post_step [OF ex_run_posts(3)])
  show "engine_step ex_run6 ex_run7" unfolding ex_run7_def by (rule assign_step)
  show "engine_step ex_run7 ex_run8" unfolding ex_run8_def by (rule engine_step.lifecycle)
  show "engine_step ex_run8 ex_run9"
    unfolding ex_run9_def by (rule post_step [OF ex_run_posts(4)])
  show "engine_step ex_run9 ex_run10"
    unfolding ex_run_written(2) [symmetric] by (rule assign_step)
  show "engine_step ex_run10 ex_run11" unfolding ex_run11_def by (rule engine_step.merge)
  show "engine_step ex_run11 ex_run12" unfolding ex_run12_def by (rule engine_step.lifecycle)
  show "engine_step ex_run12 ex_run13" unfolding ex_run13_def by (rule engine_step.lifecycle)
  show "engine_step ex_run13 ex_run14"
    unfolding ex_run_written(3) [symmetric] by (rule engine_step.lifecycle)
  show "engine_step ex_run14 ex_run15"
    unfolding ex_run15_def by (rule post_step [OF ex_run_posts(5)])
  show "engine_step ex_run15 ex_run16" unfolding ex_run16_def by (rule assign_step)
qed

lemma ex_run_reachable: "reachable ex_run16"
  by (intro reachable.step [OF _ ex_run_steps(16)] reachable.step [OF _ ex_run_steps(15)]
      reachable.step [OF _ ex_run_steps(14)] reachable.step [OF _ ex_run_steps(13)]
      reachable.step [OF _ ex_run_steps(12)] reachable.step [OF _ ex_run_steps(11)]
      reachable.step [OF _ ex_run_steps(10)] reachable.step [OF _ ex_run_steps(9)]
      reachable.step [OF _ ex_run_steps(8)] reachable.step [OF _ ex_run_steps(7)]
      reachable.step [OF _ ex_run_steps(6)] reachable.step [OF _ ex_run_steps(5)]
      reachable.step [OF _ ex_run_steps(4)] reachable.step [OF _ ex_run_steps(3)]
      reachable.step [OF _ ex_run_steps(2)] reachable.step [OF _ ex_run_steps(1)]
      reachable.init)

lemma ex_run_fetched:
  "fetchActiveThreadCandidates 15 ex_run1 = []"
  "fetchActiveThreadCandidates 15 ex_run3 = [ex_S_active]"
  "fetchArchivedCandidates 20 ex_run3 = []"
  "fetchActiveThreadCandidates 15 ex_run6 = [ex_T_cooling, ex_S_cooling]"
  "fetchMergeCandidates ex_run6 = [ex_T_cooling, ex_S_cooling]"
  "fetchActiveThreadCandidates 15 ex_run9 = [ex_S_reopened]"
  "fetchArchivedCandidates 20 ex_run9 = [ex_T_archived]"
  "fetchActiveThreadCandidates 15 ex_run15 = [ex_E_cooling]"
  "fetchArchivedCandidates 20 ex_run15 = [ex_T_archived_again]"
  by code_simp+

lemma ex_run_merge:
  "findMergePair [ex_T_cooling, ex_S_cooling] = Some ex_TS_pair"
  "resolveMerge ai_run ex_TS_pair = Some (''tS'', ''tT'')"
  by code_simp+

lemma ex_run_rows:
  "map (\<lambda>t. (id_t t, state t, revives_thread_id t, continued_in_thread_id t)) (threads ex_run8)
     = [(''tS'', Active, None, None), (''tT'', Archived, None, None)]"
  "map (\<lambda>t. (id_t t, state t, revives_thread_id t, continued_in_thread_id t)) (threads ex_run10)
     = [(''tS'', Active, None, None), (''tT'', Superseded, None, Some ''tE''),
        (''tE'', Active, Some ''tT'', None)]"
  "map (\<lambda>t. (id_t t, state t, revives_thread_id t, continued_in_thread_id t)) (threads ex_run11)
     = [(''tS'', Superseded, None, None), (''tT'', Active, None, Some ''tE''),
        (''tE'', Active, Some ''tT'', None)]"
  "map (\<lambda>t. (id_t t, state t, revives_thread_id t, continued_in_thread_id t)) (threads ex_run14)
     = [(''tS'', Superseded, None, None), (''tT'', Archived, None, Some ''tE''),
        (''tE'', Cooling, Some ''tT'', None)]"
  "map (\<lambda>t. (id_t t, state t, revives_thread_id t, continued_in_thread_id t)) (threads ex_run16)
     = [(''tS'', Superseded, None, None), (''tT'', Superseded, None, Some ''tF''),
        (''tE'', Cooling, Some ''tT'', None), (''tF'', Active, Some ''tT'', None)]"
  by code_simp+

text \<open>
  Claim C6 at a failing input. The sample run is a run of the engine from the
  empty store. The merge tick reads the two cooling threads \<^verbatim>\<open>tT\<close> and \<^verbatim>\<open>tS\<close>
  and resolves the merge of \<^verbatim>\<open>tS\<close> into \<^verbatim>\<open>tT\<close>, the thread with the more
  recent message. Before it commits, \<^verbatim>\<open>tT\<close> is archived and then revived by
  the new thread \<^verbatim>\<open>tE\<close>, so that \<^verbatim>\<open>tT\<close> is superseded and continued in
  \<^verbatim>\<open>tE\<close>, and \<^verbatim>\<open>tS\<close> is active again. The transaction of the merge tick
  then supersedes \<^verbatim>\<open>tS\<close> and sets the target \<^verbatim>\<open>tT\<close> to active whatever its
  state: the update of the source row carries the condition
  \<^verbatim>\<open>state IN ('active', 'cooling')\<close>, the update of the target row carries
  none. The reopened \<^verbatim>\<open>tT\<close> keeps its continuation \<^verbatim>\<open>tE\<close>, cools and is
  archived again, and is offered as a revival candidate once more. When the
  next new thread \<^verbatim>\<open>tF\<close> revives it, its continuation becomes \<^verbatim>\<open>tF\<close>: in
  the last store of the run the thread \<^verbatim>\<open>tE\<close> names \<^verbatim>\<open>tT\<close> as the thread it
  revives, and \<^verbatim>\<open>tT\<close> names \<^verbatim>\<open>tF\<close>, not \<^verbatim>\<open>tE\<close>, as its continuation.
\<close>

theorem mergeTick_reopens_superseded_target:
  "reachable ex_run16 \<and>
   fetchMergeCandidates ex_run6 = [ex_T_cooling, ex_S_cooling] \<and>
   findMergePair [ex_T_cooling, ex_S_cooling] = Some ex_TS_pair \<and>
   resolveMerge ai_run ex_TS_pair = Some (''tS'', ''tT'') \<and>
   map (\<lambda>t. (id_t t, state t, revives_thread_id t, continued_in_thread_id t)) (threads ex_run8)
     = [(''tS'', Active, None, None), (''tT'', Archived, None, None)] \<and>
   map (\<lambda>t. (id_t t, state t, revives_thread_id t, continued_in_thread_id t)) (threads ex_run10)
     = [(''tS'', Active, None, None), (''tT'', Superseded, None, Some ''tE''),
        (''tE'', Active, Some ''tT'', None)] \<and>
   ex_run11 = mergeTick ai_run (Some (fetchMergeCandidates ex_run6)) 259214000000 ex_run10 \<and>
   map (\<lambda>t. (id_t t, state t, revives_thread_id t, continued_in_thread_id t)) (threads ex_run11)
     = [(''tS'', Superseded, None, None), (''tT'', Active, None, Some ''tE''),
        (''tE'', Active, Some ''tT'', None)] \<and>
   map (\<lambda>t. (id_t t, state t, revives_thread_id t, continued_in_thread_id t)) (threads ex_run14)
     = [(''tS'', Superseded, None, None), (''tT'', Archived, None, Some ''tE''),
        (''tE'', Cooling, Some ''tT'', None)] \<and>
   fetchArchivedCandidates 20 ex_run15 = [ex_T_archived_again] \<and>
   map (\<lambda>t. (id_t t, state t, revives_thread_id t, continued_in_thread_id t)) (threads ex_run16)
     = [(''tS'', Superseded, None, None), (''tT'', Superseded, None, Some ''tF''),
        (''tE'', Cooling, Some ''tT'', None), (''tF'', Active, Some ''tT'', None)] \<and>
   revives_thread_id (threads ex_run16 ! 2) = Some (id_t (threads ex_run16 ! 1)) \<and>
   continued_in_thread_id (threads ex_run16 ! 1) \<noteq> Some (id_t (threads ex_run16 ! 2))"
proof -
  have e: "ex_run11 = mergeTick ai_run (Some (fetchMergeCandidates ex_run6)) 259214000000 ex_run10"
    by (rule ex_run11_def)
  have "map (\<lambda>t. (id_t t, revives_thread_id t, continued_in_thread_id t)) (threads ex_run16)
     = [(''tS'', None, None), (''tT'', None, Some ''tF''),
        (''tE'', Some ''tT'', None), (''tF'', Some ''tT'', None)]"
    using arg_cong [OF ex_run_rows(5), of "map (\<lambda>(i, s, r, c). (i, r, c))"] by (simp add: o_def)
  then obtain a b c d where t: "threads ex_run16 = [a, b, c, d]"
    and f: "id_t b = ''tT''" "continued_in_thread_id b = Some ''tF''"
      "id_t c = ''tE''" "revives_thread_id c = Some ''tT''"
    by (auto simp: map_eq_Cons_conv)
  have v: "revives_thread_id (threads ex_run16 ! 2) = Some (id_t (threads ex_run16 ! 1))"
    "continued_in_thread_id (threads ex_run16 ! 1) \<noteq> Some (id_t (threads ex_run16 ! 2))"
    by (simp_all add: t f)
  from ex_run_reachable ex_run_fetched(5) ex_run_merge ex_run_rows(1,2) e ex_run_rows(3,4)
    ex_run_fetched(9) ex_run_rows(5) v
  show ?thesis by (intro conjI)
qed

text \<open>The last store of the run does not satisfy the invariant of the revival links.\<close>

lemma ex_run_not_linked: "\<not> revival_linked ex_run16"
proof
  assume l: "revival_linked ex_run16"
  have "map (\<lambda>t. (id_t t, revives_thread_id t, continued_in_thread_id t)) (threads ex_run16)
     = [(''tS'', None, None), (''tT'', None, Some ''tF''),
        (''tE'', Some ''tT'', None), (''tF'', Some ''tT'', None)]"
    using arg_cong [OF ex_run_rows(5), of "map (\<lambda>(i, s, r, c). (i, r, c))"] by (simp add: o_def)
  then obtain a b c d where t: "threads ex_run16 = [a, b, c, d]"
    and f: "id_t b = ''tT''" "continued_in_thread_id b = Some ''tF''"
      "id_t c = ''tE''" "revives_thread_id c = Some ''tT''"
    by (auto simp: map_eq_Cons_conv)
  from l have "(revives_thread_id c = Some (id_t b)) = (continued_in_thread_id b = Some (id_t c))"
    unfolding revival_linked_def t by simp
  with f show False by simp
qed

subsection \<open>Sample runs\<close>

text \<open>The sample run of a revival.\<close>

lemma ex_post_ok:
  "\<not> isl (postMessage ''ann'' ''the deploy pipeline is still broken'' ''m1'' 450000000000 ex_aged)"
  by code_simp

lemma ex_reachable_queued: "reachable ex_queued"
proof -
  have "reachable ex_posted"
  proof (rule reachable.step [OF reachable.init])
    have "postMessage ''ann'' ''deploy pipeline broken'' ''m0'' 10 \<lparr> threads = [], messages = [] \<rparr>
            = Inr ex_posted"
      by (simp add: postMessage_def trim_def is_space_def code_unit_def ex_posted_def)
    then show "engine_step \<lparr> threads = [], messages = [] \<rparr> ex_posted"
      by (rule engine_step.post)
  qed
  then have "reachable ex_threaded"
    unfolding ex_threaded_def
    by (rule reachable.step) (rule engine_step.assign, rule surjective_pairing)
  then have "reachable ex_aged"
    unfolding ex_aged_def
    by (rule reachable.step) (rule engine_step.lifecycle)
  then show "reachable ex_queued"
  proof (rule reachable.step)
    have "postMessage ''ann'' ''the deploy pipeline is still broken'' ''m1'' 450000000000 ex_aged
            = Inr ex_queued"
      unfolding ex_queued_def using ex_post_ok by simp
    then show "engine_step ex_aged ex_queued" by (rule engine_step.post)
  qed
qed

lemma ex_step_revived: "engine_step ex_queued ex_revived"
  unfolding ex_revived_def by (rule engine_step.assign, rule surjective_pairing)

subsection \<open>Assignment status\<close>

text \<open>
  A pass over a claimed message: the rows keep their ids, the claimed row was
  pending and ends assigned or failed, every other row keeps its status.
\<close>

lemma processSinglePendingMessage_statuses:
  assumes d: "distinct (map id_m (messages s))"
    and p: "processSinglePendingMessage ai fetchedActive fetchedArchived newId now s = (True, s')"
  shows "\<exists>pending s1. claimPendingMessage s = (Some pending, s1) \<and>
           length (messages s') = length (messages s) \<and>
           (\<forall>i<length (messages s).
              id_m (messages s' ! i) = id_m (messages s ! i) \<and>
              (if id_m (messages s ! i) = id_p pending
               then assignment_status (messages s ! i) = Pending \<and>
                    assignment_status (messages s1 ! i) = In_progress \<and>
                    assignment_status (messages s' ! i) \<in> {Assigned, Failed}
               else assignment_status (messages s1 ! i) = assignment_status (messages s ! i) \<and>
                    assignment_status (messages s' ! i) = assignment_status (messages s ! i)))"
proof -
  have claimed: "length (messages s1) = length (messages s) \<and>
       (\<forall>i<length (messages s).
          id_m (messages s1 ! i) = id_m (messages s ! i) \<and>
          (if id_m (messages s ! i) = id_p pending
           then assignment_status (messages s ! i) = Pending \<and>
                assignment_status (messages s1 ! i) = In_progress
           else assignment_status (messages s1 ! i) = assignment_status (messages s ! i)))"
    if c: "claimPendingMessage s = (Some pending, s1)" for pending s1
  proof -
    note k = claimPendingMessage_Some [OF c]
    from k(3) obtain m0 where m0: "m0 \<in> set (messages s)" "id_m m0 = id_p pending"
      "assignment_status m0 = Pending"
      by blast
    have "assignment_status (messages s ! i) = Pending"
      if "i < length (messages s)" "id_m (messages s ! i) = id_p pending" for i
    proof -
      have "messages s ! i \<in> set (messages s)" using that(1) by simp
      from distinct_map_eq [OF d this m0(1)] that(2) m0(2) have "messages s ! i = m0" by simp
      with m0(3) show ?thesis by simp
    qed
    then show ?thesis by (simp add: k(2))
  qed
  from p show ?thesis
  proof (cases rule: processSinglePendingMessage_cases)
    case idle
    then show ?thesis by simp
  next
    case (applied pending s1 decision revivalSourceId r)
    note a = applyAssignment_messages [OF applied(3)]
    from claimed [OF applied(1)] have "length (messages s') = length (messages s) \<and>
           (\<forall>i<length (messages s).
              id_m (messages s' ! i) = id_m (messages s ! i) \<and>
              (if id_m (messages s ! i) = id_p pending
               then assignment_status (messages s ! i) = Pending \<and>
                    assignment_status (messages s1 ! i) = In_progress \<and>
                    assignment_status (messages s' ! i) \<in> {Assigned, Failed}
               else assignment_status (messages s1 ! i) = assignment_status (messages s ! i) \<and>
                    assignment_status (messages s' ! i) = assignment_status (messages s ! i)))"
      by (simp add: a)
    with applied(1) show ?thesis by blast
  next
    case (failed pending s1)
    from claimed [OF failed(1)] have "length (messages s') = length (messages s) \<and>
           (\<forall>i<length (messages s).
              id_m (messages s' ! i) = id_m (messages s ! i) \<and>
              (if id_m (messages s ! i) = id_p pending
               then assignment_status (messages s ! i) = Pending \<and>
                    assignment_status (messages s1 ! i) = In_progress \<and>
                    assignment_status (messages s' ! i) \<in> {Assigned, Failed}
               else assignment_status (messages s1 ! i) = assignment_status (messages s ! i) \<and>
                    assignment_status (messages s' ! i) = assignment_status (messages s ! i)))"
      by (simp add: failed(3) markFailed_def)
    with failed(1) show ?thesis by blast
  qed
qed

lemma step_messages:
  assumes d: "distinct (map id_m (messages s))" and st: "engine_step s s'"
  shows "length (messages s) \<le> length (messages s') \<and>
         (\<forall>i<length (messages s).
            id_m (messages s' ! i) = id_m (messages s ! i) \<and>
            (assignment_status (messages s' ! i) = assignment_status (messages s ! i) \<or>
             assignment_status (messages s ! i) = Pending \<and>
             assignment_status (messages s' ! i) \<in> {Assigned, Failed})) \<and>
         (\<forall>i. length (messages s) \<le> i \<and> i < length (messages s') \<longrightarrow>
            assignment_status (messages s' ! i) = Pending)"
  using st
proof (cases rule: engine_step.cases)
  case (post author content newId now)
  then obtain m where "messages s' = messages s @ [m]" "assignment_status m = Pending"
    by (auto simp: postMessage_def Let_def split: if_splits)
  then show ?thesis by (auto simp: nth_append less_Suc_eq)
next
  case (assign ai fetchedActive fetchedArchived newId now b)
  show ?thesis
  proof (cases b)
    case True
    with assign have p: "processSinglePendingMessage ai fetchedActive fetchedArchived newId now s
        = (True, s')" by simp
    from processSinglePendingMessage_statuses [OF d p]
    obtain pending where "\<exists>s1. claimPendingMessage s = (Some pending, s1) \<and>
           length (messages s') = length (messages s) \<and>
           (\<forall>i<length (messages s).
              id_m (messages s' ! i) = id_m (messages s ! i) \<and>
              (if id_m (messages s ! i) = id_p pending
               then assignment_status (messages s ! i) = Pending \<and>
                    assignment_status (messages s1 ! i) = In_progress \<and>
                    assignment_status (messages s' ! i) \<in> {Assigned, Failed}
               else assignment_status (messages s1 ! i) = assignment_status (messages s ! i) \<and>
                    assignment_status (messages s' ! i) = assignment_status (messages s ! i)))" ..
    then obtain s1 where k: "claimPendingMessage s = (Some pending, s1) \<and>
           length (messages s') = length (messages s) \<and>
           (\<forall>i<length (messages s).
              id_m (messages s' ! i) = id_m (messages s ! i) \<and>
              (if id_m (messages s ! i) = id_p pending
               then assignment_status (messages s ! i) = Pending \<and>
                    assignment_status (messages s1 ! i) = In_progress \<and>
                    assignment_status (messages s' ! i) \<in> {Assigned, Failed}
               else assignment_status (messages s1 ! i) = assignment_status (messages s ! i) \<and>
                    assignment_status (messages s' ! i) = assignment_status (messages s ! i)))" ..
    have len: "length (messages s') = length (messages s)"
      by (rule conjunct1 [OF conjunct2 [OF k]])
    have rows: "\<forall>i<length (messages s).
              id_m (messages s' ! i) = id_m (messages s ! i) \<and>
              (if id_m (messages s ! i) = id_p pending
               then assignment_status (messages s ! i) = Pending \<and>
                    assignment_status (messages s1 ! i) = In_progress \<and>
                    assignment_status (messages s' ! i) \<in> {Assigned, Failed}
               else assignment_status (messages s1 ! i) = assignment_status (messages s ! i) \<and>
                    assignment_status (messages s' ! i) = assignment_status (messages s ! i))"
      by (rule conjunct2 [OF conjunct2 [OF k]])
    have "\<forall>i<length (messages s).
            id_m (messages s' ! i) = id_m (messages s ! i) \<and>
            (assignment_status (messages s' ! i) = assignment_status (messages s ! i) \<or>
             assignment_status (messages s ! i) = Pending \<and>
             assignment_status (messages s' ! i) \<in> {Assigned, Failed})"
    proof (intro allI impI)
      fix i assume "i < length (messages s)"
      with rows show "id_m (messages s' ! i) = id_m (messages s ! i) \<and>
            (assignment_status (messages s' ! i) = assignment_status (messages s ! i) \<or>
             assignment_status (messages s ! i) = Pending \<and>
             assignment_status (messages s' ! i) \<in> {Assigned, Failed})"
        by (cases "id_m (messages s ! i) = id_p pending") auto
    qed
    with len show ?thesis by auto
  next
    case False
    with assign have p: "processSinglePendingMessage ai fetchedActive fetchedArchived newId now s
        = (False, s')" by simp
    from p have "s' = s"
      by (cases rule: processSinglePendingMessage_cases) simp_all
    then show ?thesis by auto
  qed
next
  case (lifecycle cfg now1 now2)
  then have "messages s' = messages s"
    by (simp add: lifecycleTick_def coolThreads_def archiveThreads_def)
  then show ?thesis by auto
next
  case (merge ai fetched now)
  from mergeTick_messages [of ai fetched now s] merge(1)
  obtain f where "messages s' = map f (messages s)"
    "\<forall>m. id_m (f m) = id_m m \<and> assignment_status (f m) = assignment_status m"
    by auto
  then show ?thesis by auto
qed

lemma reachable_no_in_progress:
  "reachable s \<Longrightarrow> \<forall>m\<in>set (messages s). assignment_status m \<noteq> In_progress"
proof (induction rule: reachable.induct)
  case init
  show ?case by simp
next
  case (step s s')
  have d: "distinct (map id_m (messages s))"
    using reachable_keys [OF step.hyps(1)] by simp
  note k = step_messages [OF d step.hyps(2)]
  show ?case
  proof
    fix m assume "m \<in> set (messages s')"
    then obtain i where i: "i < length (messages s')" "m = messages s' ! i"
      by (auto simp: in_set_conv_nth)
    show "assignment_status m \<noteq> In_progress"
    proof (cases "i < length (messages s)")
      case True
      then have "messages s ! i \<in> set (messages s)" by simp
      with step.IH have "assignment_status (messages s ! i) \<noteq> In_progress" by blast
      with k True i(2) show ?thesis by auto
    next
      case False
      with k i show ?thesis by auto
    qed
  qed
qed

text \<open>
  Claim C7. In every reachable store no message is in progress, and every step
  of the engine keeps the rows of the message table in place and moves no
  status backwards in the order pending, in progress, then assigned or failed;
  a status that is assigned or failed stays as it is. Inside a pass of
  \<^verbatim>\<open>processSinglePendingMessage\<close> that claims a message, the claimed row
  goes from pending to in progress at the claim and ends assigned or failed,
  and no other row changes its status.
\<close>

theorem assignment_status_monotone:
  assumes r: "reachable s"
  shows "(\<forall>m\<in>set (messages s). assignment_status m \<noteq> In_progress) \<and>
         (\<forall>s'. engine_step s s' \<longrightarrow>
            length (messages s) \<le> length (messages s') \<and>
            (\<forall>i<length (messages s).
               id_m (messages s' ! i) = id_m (messages s ! i) \<and>
               status_rank (assignment_status (messages s ! i))
                 \<le> status_rank (assignment_status (messages s' ! i)) \<and>
               (assignment_status (messages s ! i) \<in> {Assigned, Failed} \<longrightarrow>
                  assignment_status (messages s' ! i) = assignment_status (messages s ! i)))) \<and>
         (\<forall>ai fetchedActive fetchedArchived newId now s'.
            processSinglePendingMessage ai fetchedActive fetchedArchived newId now s = (True, s') \<longrightarrow>
            (\<exists>pending s1. claimPendingMessage s = (Some pending, s1) \<and>
               length (messages s') = length (messages s) \<and>
               (\<forall>i<length (messages s).
                  id_m (messages s' ! i) = id_m (messages s ! i) \<and>
                  (if id_m (messages s ! i) = id_p pending
                   then assignment_status (messages s ! i) = Pending \<and>
                        assignment_status (messages s1 ! i) = In_progress \<and>
                        assignment_status (messages s' ! i) \<in> {Assigned, Failed}
                   else assignment_status (messages s1 ! i) = assignment_status (messages s ! i) \<and>
                        assignment_status (messages s' ! i) = assignment_status (messages s ! i)))))"
proof -
  have d: "distinct (map id_m (messages s))"
    using reachable_keys [OF r] by simp
  have a: "\<forall>m\<in>set (messages s). assignment_status m \<noteq> In_progress"
    using reachable_no_in_progress [OF r] .
  have b: "\<forall>s'. engine_step s s' \<longrightarrow>
            length (messages s) \<le> length (messages s') \<and>
            (\<forall>i<length (messages s).
               id_m (messages s' ! i) = id_m (messages s ! i) \<and>
               status_rank (assignment_status (messages s ! i))
                 \<le> status_rank (assignment_status (messages s' ! i)) \<and>
               (assignment_status (messages s ! i) \<in> {Assigned, Failed} \<longrightarrow>
                  assignment_status (messages s' ! i) = assignment_status (messages s ! i)))"
  proof (intro allI impI)
    fix s' assume st: "engine_step s s'"
    note k = step_messages [OF d st]
    have "id_m (messages s' ! i) = id_m (messages s ! i) \<and>
               status_rank (assignment_status (messages s ! i))
                 \<le> status_rank (assignment_status (messages s' ! i)) \<and>
               (assignment_status (messages s ! i) \<in> {Assigned, Failed} \<longrightarrow>
                  assignment_status (messages s' ! i) = assignment_status (messages s ! i))"
      if i: "i < length (messages s)" for i
    proof -
      from k i have "id_m (messages s' ! i) = id_m (messages s ! i)"
        and c: "assignment_status (messages s' ! i) = assignment_status (messages s ! i) \<or>
             assignment_status (messages s ! i) = Pending \<and>
             assignment_status (messages s' ! i) \<in> {Assigned, Failed}"
        by blast+
      then show ?thesis by auto
    qed
    with k show "length (messages s) \<le> length (messages s') \<and>
            (\<forall>i<length (messages s).
               id_m (messages s' ! i) = id_m (messages s ! i) \<and>
               status_rank (assignment_status (messages s ! i))
                 \<le> status_rank (assignment_status (messages s' ! i)) \<and>
               (assignment_status (messages s ! i) \<in> {Assigned, Failed} \<longrightarrow>
                  assignment_status (messages s' ! i) = assignment_status (messages s ! i)))"
      by blast
  qed
  have c: "\<forall>ai fetchedActive fetchedArchived newId now s'.
            processSinglePendingMessage ai fetchedActive fetchedArchived newId now s = (True, s') \<longrightarrow>
            (\<exists>pending s1. claimPendingMessage s = (Some pending, s1) \<and>
               length (messages s') = length (messages s) \<and>
               (\<forall>i<length (messages s).
                  id_m (messages s' ! i) = id_m (messages s ! i) \<and>
                  (if id_m (messages s ! i) = id_p pending
                   then assignment_status (messages s ! i) = Pending \<and>
                        assignment_status (messages s1 ! i) = In_progress \<and>
                        assignment_status (messages s' ! i) \<in> {Assigned, Failed}
                   else assignment_status (messages s1 ! i) = assignment_status (messages s ! i) \<and>
                        assignment_status (messages s' ! i) = assignment_status (messages s ! i))))"
    using processSinglePendingMessage_statuses [OF d] by blast
  from a b c show ?thesis by (intro conjI)
qed

lemma ex_statuses:
  "map assignment_status (messages ex_queued) = [Assigned, Pending]"
  "map assignment_status (messages ex_revived) = [Assigned, Assigned]"
  "map assignment_status (messages ex_query_failed) = [Assigned, Failed]"
  by code_simp+

theorem assignment_status_monotone_witness:
  "reachable ex_queued \<and> engine_step ex_queued ex_revived \<and>
   map assignment_status (messages ex_queued) = [Assigned, Pending] \<and>
   map assignment_status (messages ex_revived) = [Assigned, Assigned] \<and>
   map assignment_status (messages ex_query_failed) = [Assigned, Failed] \<and>
   status_rank (assignment_status (messages ex_queued ! 1))
     \<le> status_rank (assignment_status (messages ex_revived ! 1))"
proof -
  note t = assignment_status_monotone [OF ex_reachable_queued]
  from t have "\<forall>s'. engine_step ex_queued s' \<longrightarrow>
            length (messages ex_queued) \<le> length (messages s') \<and>
            (\<forall>i<length (messages ex_queued).
               id_m (messages s' ! i) = id_m (messages ex_queued ! i) \<and>
               status_rank (assignment_status (messages ex_queued ! i))
                 \<le> status_rank (assignment_status (messages s' ! i)) \<and>
               (assignment_status (messages ex_queued ! i) \<in> {Assigned, Failed} \<longrightarrow>
                  assignment_status (messages s' ! i) = assignment_status (messages ex_queued ! i)))"
    by (elim conjE)
  from this [rule_format, OF ex_step_revived]
  have rows: "\<forall>i<length (messages ex_queued).
               id_m (messages ex_revived ! i) = id_m (messages ex_queued ! i) \<and>
               status_rank (assignment_status (messages ex_queued ! i))
                 \<le> status_rank (assignment_status (messages ex_revived ! i)) \<and>
               (assignment_status (messages ex_queued ! i) \<in> {Assigned, Failed} \<longrightarrow>
                  assignment_status (messages ex_revived ! i)
                    = assignment_status (messages ex_queued ! i))"
    by (elim conjE)
  have "length (map assignment_status (messages ex_queued)) = 2"
    by (simp only: ex_statuses) simp
  then have l: "1 < length (messages ex_queued)" by simp
  from rows [rule_format, OF l]
  have r: "status_rank (assignment_status (messages ex_queued ! 1))
     \<le> status_rank (assignment_status (messages ex_revived ! 1))"
    by (elim conjE)
  from ex_reachable_queued ex_step_revived ex_statuses r show ?thesis by (intro conjI)
qed

end
